theory Spec2Isabelle
  imports Complex_Main "HOL-Library.AList"
begin

section \<open>Python and numpy values\<close>

text \<open>
  Exceptions are values: every function of the source that can raise returns
  \<open>py_error + 'a\<close>, with \<open>Inl\<close> for the exception.
\<close>

datatype py_error =
    ValueError
  | IndexError
  | KeyError
  | ZeroDivisionError
  | AssertionError
  | NameError string

text \<open>
  A numpy \<open>float64\<close> is an exact real number or NaN. NaN is kept because the source
  uses it as a sentinel (\<open>np.full(..., np.nan)\<close>, \<open>np.isnan\<close>) and because comparisons
  with NaN are false; rounding and the infinities are outside the model.
\<close>

datatype float64 = NaN | Fin real

definition isnan :: "float64 \<Rightarrow> bool" where
  "isnan x = (x = NaN)"

text \<open>\<open>a > b\<close> on floats: false as soon as one side is NaN.\<close>

fun fgt :: "float64 \<Rightarrow> float64 \<Rightarrow> bool" where
  "fgt (Fin a) (Fin b) = (b < a)"
| "fgt _ _ = False"

text \<open>
  A two-dimensional \<open>ndarray\<close> of shape \<open>(nrows, ncols)\<close>: the list of its rows, with
  the column count kept beside it (an array with no rows still has one).
\<close>

datatype matrix = Matrix (ncols: nat) (rows: "float64 list list")

definition nrows :: "matrix \<Rightarrow> nat" where
  "nrows m = length (rows m)"

definition wf_matrix :: "matrix \<Rightarrow> bool" where
  "wf_matrix m = list_all (\<lambda>r. length r = ncols m) (rows m)"

definition has_shape :: "matrix \<Rightarrow> nat \<Rightarrow> nat \<Rightarrow> bool" where
  "has_shape m t f = (wf_matrix m \<and> nrows m = t \<and> ncols m = f)"

text \<open>
  Python slicing \<open>xs[start:stop]\<close>: a negative bound counts from the end, every bound is
  clipped to the sequence, \<open>None\<close> is the open end, and an empty range gives an empty
  sequence.
\<close>

definition slice_bound :: "nat \<Rightarrow> int \<Rightarrow> nat" where
  "slice_bound n i = (if i < 0 then nat (max 0 (int n + i)) else min n (nat i))"

definition py_slice :: "int option \<Rightarrow> int option \<Rightarrow> 'a list \<Rightarrow> 'a list" where
  "py_slice start stop xs =
     (let n = length xs;
          lo = (case start of None \<Rightarrow> 0 | Some i \<Rightarrow> slice_bound n i);
          hi = (case stop of None \<Rightarrow> n | Some j \<Rightarrow> slice_bound n j)
      in take (hi - lo) (drop lo xs))"

definition slice_rows :: "int option \<Rightarrow> int option \<Rightarrow> matrix \<Rightarrow> matrix" where
  "slice_rows start stop m = Matrix (ncols m) (py_slice start stop (rows m))"

text \<open>\<open>np.full((n, f), v)\<close>; a negative dimension raises.\<close>

definition np_full :: "int \<Rightarrow> nat \<Rightarrow> float64 \<Rightarrow> py_error + matrix" where
  "np_full n f v =
     (if n < 0 then Inl ValueError else Inr (Matrix f (replicate (nat n) (replicate f v))))"

text \<open>\<open>np.vstack((a, b))\<close> of two matrices: the column counts must agree.\<close>

definition vstack2 :: "matrix \<Rightarrow> matrix \<Rightarrow> py_error + matrix" where
  "vstack2 a b =
     (if ncols a = ncols b then Inr (Matrix (ncols a) (rows a @ rows b)) else Inl ValueError)"

text \<open>
  \<open>np.hstack\<close> of a list of matrices: an empty list raises, and so do row counts that
  differ; otherwise row \<open>r\<close> of the result is the rows \<open>r\<close> of the arguments, one after
  the other.
\<close>

fun hstack :: "matrix list \<Rightarrow> py_error + matrix" where
  "hstack [] = Inl ValueError"
| "hstack (m # ms) =
     (if list_all (\<lambda>b. nrows b = nrows m) ms
      then Inr (Matrix (sum_list (map ncols (m # ms)))
                  (map (\<lambda>r. concat (map (\<lambda>b. rows b ! r) (m # ms))) [0..<nrows m]))
      else Inl ValueError)"

definition nan_to_zero :: "float64 \<Rightarrow> float64" where
  "nan_to_zero x = (if isnan x then Fin 0 else x)"

section \<open>\<open>encoding_model.py\<close>: \<open>delay_embedding\<close>\<close>

text \<open>
  One pass of the loop body: \<open>np.vstack((np.full((delay, embedding.shape[1]), np.nan),
  embedding[:-delay]))\<close>.
\<close>

definition delay_block :: "matrix \<Rightarrow> int \<Rightarrow> py_error + matrix" where
  "delay_block embedding delay =
     (case np_full delay (ncols embedding) NaN of
        Inl e \<Rightarrow> Inl e
      | Inr pad \<Rightarrow> vstack2 pad (slice_rows None (Some (- delay)) embedding))"

text \<open>The loop \<open>for delay in delays: delayed.append(...)\<close>; the first exception ends it.\<close>

fun delay_blocks :: "matrix \<Rightarrow> int list \<Rightarrow> py_error + matrix list" where
  "delay_blocks embedding [] = Inr []"
| "delay_blocks embedding (delay # delays) =
     (case delay_block embedding delay of
        Inl e \<Rightarrow> Inl e
      | Inr b \<Rightarrow>
          (case delay_blocks embedding delays of
             Inl e \<Rightarrow> Inl e
           | Inr bs \<Rightarrow> Inr (b # bs)))"

text \<open>
  \<open>delay_embedding\<close>; \<open>zscore\<close> is scipy's column standardisation, a parameter of the
  model. \<open>delayed[np.isnan(delayed)] = 0\<close> zeroes every NaN of the stacked matrix, the
  padding and any NaN that came from the input.
\<close>

definition delay_embedding ::
  "(matrix \<Rightarrow> matrix) \<Rightarrow> matrix \<Rightarrow> int list \<Rightarrow> bool \<Rightarrow> py_error + matrix" where
  "delay_embedding zscore embedding delays zscore_features =
     (case delay_blocks embedding delays of
        Inl e \<Rightarrow> Inl e
      | Inr blocks \<Rightarrow>
          (case hstack blocks of
             Inl e \<Rightarrow> Inl e
           | Inr stacked \<Rightarrow>
               (let delayed = Matrix (ncols stacked) (map (map nan_to_zero) (rows stacked))
                in Inr (if zscore_features then zscore delayed else delayed))))"

text \<open>
  For stating what \<open>delay_embedding\<close> returns: \<open>pos_block\<close> is the block the loop
  builds for a positive delay, \<open>delayed_row\<close> its row \<open>r\<close> once the NaNs are zeroed,
  and \<open>block_row m f i r\<close> is row \<open>r\<close> of the \<open>i\<close>-th block of \<open>f\<close> columns of \<open>m\<close>.
\<close>

definition pos_block :: "matrix \<Rightarrow> int \<Rightarrow> matrix" where
  "pos_block emb d = Matrix (ncols emb)
            (replicate (nat d) (replicate (ncols emb) NaN) @ take (nrows emb - nat d) (rows emb))"

definition delayed_row :: "matrix \<Rightarrow> int \<Rightarrow> nat \<Rightarrow> float64 list" where
  "delayed_row embedding d r =
     (if int r < d then replicate (ncols embedding) (Fin 0)
      else map nan_to_zero (rows embedding ! (r - nat d)))"

definition block_row :: "matrix \<Rightarrow> nat \<Rightarrow> nat \<Rightarrow> nat \<Rightarrow> float64 list" where
  "block_row m f i r = take f (drop (i * f) (rows m ! r))"


section \<open>\<open>ts_classification.py\<close>: \<open>time_segmentation\<close>\<close>

text \<open>
  Float arithmetic: a sum or a quotient with a NaN operand is NaN, and so is \<open>0 / 0\<close>, the
  mean of no numbers.
\<close>

fun fadd :: "float64 \<Rightarrow> float64 \<Rightarrow> float64" where
  "fadd (Fin a) (Fin b) = Fin (a + b)"
| "fadd _ _ = NaN"

fun fdiv_nat :: "float64 \<Rightarrow> nat \<Rightarrow> float64" where
  "fdiv_nat (Fin a) n = (if n = 0 then NaN else Fin (a / real n))"
| "fdiv_nat NaN n = NaN"

definition fmean :: "float64 list \<Rightarrow> float64" where
  "fmean xs = fdiv_nat (foldl fadd (Fin 0) xs) (length xs)"

text \<open>\<open>np.mean(segment, axis=0)\<close>: the mean of every column.\<close>

definition mean_axis0 :: "matrix \<Rightarrow> float64 list" where
  "mean_axis0 m = map (\<lambda>j. fmean (map (\<lambda>r. r ! j) (rows m))) [0..<ncols m]"

text \<open>\<open>np.ravel(segment)\<close>: the rows one after the other.\<close>

definition ravel :: "matrix \<Rightarrow> float64 list" where
  "ravel m = concat (rows m)"

text \<open>
  \<open>np.array_split(ary, n, axis=0)\<close>: \<open>n \<le> 0\<close> raises; otherwise the first
  \<open>len(ary) mod n\<close> sections have \<open>len(ary) div n + 1\<close> rows and the others
  \<open>len(ary) div n\<close>.
\<close>

fun split_sizes :: "nat list \<Rightarrow> 'a list \<Rightarrow> 'a list list" where
  "split_sizes [] xs = []"
| "split_sizes (k # ks) xs = take k xs # split_sizes ks (drop k xs)"

definition array_split :: "matrix \<Rightarrow> int \<Rightarrow> py_error + matrix list" where
  "array_split ary n =
     (if n \<le> 0 then Inl ValueError
      else
        (let each = nrows ary div nat n;
             extras = nrows ary mod nat n
         in Inr (map (Matrix (ncols ary))
                   (split_sizes (replicate extras (Suc each) @ replicate (nat n - extras) each)
                      (rows ary)))))"

text \<open>
  \<open>np.vstack\<close> of a list of one-dimensional arrays: each becomes a row; an empty list
  raises, and so do lengths that differ.
\<close>

definition vstack_rows :: "float64 list list \<Rightarrow> py_error + matrix" where
  "vstack_rows rs =
     (case rs of
        [] \<Rightarrow> Inl ValueError
      | r # rest \<Rightarrow>
          (if list_all (\<lambda>x. length x = length r) rest then Inr (Matrix (length r) rs)
           else Inl ValueError))"

text \<open>
  \<open>time_segmentation\<close>. \<open>//\<close> and \<open>%\<close> on Python integers are \<open>div\<close> and \<open>mod\<close> on
  \<open>int\<close> (both round towards minus infinity) and raise on a zero divisor. The iterable
  of each list comprehension, the \<open>np.array_split\<close> call, is evaluated first.
\<close>

definition time_segmentation :: "matrix \<Rightarrow> int \<Rightarrow> bool \<Rightarrow> py_error + matrix" where
  "time_segmentation data segment_length average =
     (let n_TRs = int (nrows data) in
      if segment_length = 0 then Inl ZeroDivisionError
      else
        (let n_segments = n_TRs div segment_length in
         if n_segments = 0 then Inl ZeroDivisionError
         else
           (let modulo = n_TRs mod n_segments in
            if modulo = 0 then
              (if average then
                 (case array_split data n_segments of
                    Inl e \<Rightarrow> Inl e
                  | Inr segments \<Rightarrow> vstack_rows (map mean_axis0 segments))
               else
                 (case array_split data n_segments of
                    Inl e \<Rightarrow> Inl e
                  | Inr segments \<Rightarrow> vstack_rows (map ravel segments)))
            else
              (if average then
                 (case array_split (slice_rows None (Some (- modulo)) data) n_segments of
                    Inl e \<Rightarrow> Inl e
                  | Inr segments \<Rightarrow> vstack_rows (map mean_axis0 segments))
               else
                 (case array_split (slice_rows None (Some (- modulo)) data) n_segments of
                    Inl e \<Rightarrow> Inl e
                  | Inr segments \<Rightarrow> vstack_rows (map ravel segments))))))"

section \<open>\<open>ts_classification.py\<close>: \<open>correlation_classification\<close>\<close>

text \<open>
  A three-dimensional \<open>ndarray\<close> of shape \<open>(length cells, dim1, dim2)\<close>:
  \<open>cells ! i ! j ! s\<close> is the entry \<open>[i, j, s]\<close>.
\<close>

datatype tensor3 = Tensor3 (dim1: nat) (dim2: nat) (cells: "float64 list list list")

definition wf_tensor3 :: "tensor3 \<Rightarrow> bool" where
  "wf_tensor3 t =
     list_all (\<lambda>row. length row = dim1 t \<and> list_all (\<lambda>c. length c = dim2 t) row) (cells t)"

text \<open>\<open>np.moveaxis(correlations, 2, 0)\<close>, iterated: one matrix (its rows) per subject.\<close>

definition moveaxis_2_0 :: "tensor3 \<Rightarrow> float64 list list list" where
  "moveaxis_2_0 t = map (\<lambda>s. map (map (\<lambda>c. c ! s)) (cells t)) [0..<dim2 t]"

text \<open>\<open>np.amax\<close> of a list: raises on an empty list, and is NaN as soon as an entry is.\<close>

fun fmax :: "float64 \<Rightarrow> float64 \<Rightarrow> float64" where
  "fmax (Fin a) (Fin b) = Fin (max a b)"
| "fmax _ _ = NaN"

definition amax :: "float64 list \<Rightarrow> py_error + float64" where
  "amax xs = (case xs of [] \<Rightarrow> Inl ValueError | x # rest \<Rightarrow> Inr (foldl fmax x rest))"

text \<open>Python's \<open>a / b\<close> on two integers.\<close>

definition py_truediv :: "nat \<Rightarrow> nat \<Rightarrow> py_error + float64" where
  "py_truediv a b = (if b = 0 then Inl ZeroDivisionError else Inr (Fin (real a / real b)))"

text \<open>
  The inner loop \<open>for i, row in enumerate(correlation)\<close>, from index \<open>i\<close> on, with the
  hits counted so far. \<open>row[i]\<close> raises when the row is too short.
\<close>

fun count_hits :: "float64 list list \<Rightarrow> nat \<Rightarrow> nat \<Rightarrow> py_error + nat" where
  "count_hits [] i n_hits = Inr n_hits"
| "count_hits (row # rest) i n_hits =
     (if length row \<le> i then Inl IndexError
      else
        (case amax (map (\<lambda>off. row ! off) (filter (\<lambda>off. off \<noteq> i) [0..<length row])) of
           Inl e \<Rightarrow> Inl e
         | Inr m \<Rightarrow>
             count_hits rest (Suc i) (if fgt (row ! i) m then Suc n_hits else n_hits)))"

text \<open>The outer loop over the subjects' slices.\<close>

fun classify_slices :: "nat \<Rightarrow> float64 list list list \<Rightarrow> py_error + float64 list" where
  "classify_slices n_segments [] = Inr []"
| "classify_slices n_segments (correlation # rest) =
     (case count_hits correlation 0 0 of
        Inl e \<Rightarrow> Inl e
      | Inr n_hits \<Rightarrow>
          (case py_truediv n_hits n_segments of
             Inl e \<Rightarrow> Inl e
           | Inr accuracy \<Rightarrow>
               (case classify_slices n_segments rest of
                  Inl e \<Rightarrow> Inl e
                | Inr accuracies \<Rightarrow> Inr (accuracy # accuracies))))"

definition correlation_classification :: "tensor3 \<Rightarrow> py_error + float64 list \<times> float64" where
  "correlation_classification correlations =
     (let n_segments = length (cells correlations) in
      case classify_slices n_segments (moveaxis_2_0 correlations) of
        Inl e \<Rightarrow> Inl e
      | Inr accuracies \<Rightarrow>
          (case py_truediv 1 n_segments of
             Inl e \<Rightarrow> Inl e
           | Inr chance \<Rightarrow> Inr (accuracies, chance)))"

text \<open>
  The hit rule in the spec's words: segment \<open>i\<close> of subject \<open>s\<close> is a hit when the
  diagonal entry \<open>[i, i, s]\<close> is greater than every other entry \<open>[i, j, s]\<close> of its row.
\<close>

definition segment_hit :: "tensor3 \<Rightarrow> nat \<Rightarrow> nat \<Rightarrow> bool" where
  "segment_hit t s i =
     list_all (\<lambda>j. j = i \<or> fgt (cells t ! i ! i ! s) (cells t ! i ! j ! s)) [0..<dim1 t]"

text \<open>
  \<open>row_hit row i\<close> is the hit rule on one row of a slice. \<open>ramp t\<close> (a series of \<open>t\<close>
  rows and one column holding \<open>0, 1, 2, ...\<close>) and \<open>example_slice\<close> (one subject, diagonal
  0.9, 0.1, 0.9, greatest off-diagonal entries 0.5, 0.2, 0.95) are the test data of the
  spec's examples.
\<close>

definition row_hit :: "float64 list \<Rightarrow> nat \<Rightarrow> bool" where
  "row_hit row i = (\<forall>j<length row. j = i \<or> fgt (row ! i) (row ! j))"

definition ramp :: "nat \<Rightarrow> matrix" where
  "ramp t = Matrix 1 (map (\<lambda>i. [Fin (real i)]) [0..<t])"

definition example_slice :: tensor3 where
  "example_slice =
     Tensor3 3 1 [[[Fin 0.9], [Fin 0.5], [Fin 0.3]],
                  [[Fin 0.2], [Fin 0.1], [Fin 0]],
                  [[Fin 0.95], [Fin 0.4], [Fin 0.9]]]"


section \<open>\<open>encoding_model.py\<close>: \<open>load_inputs\<close>\<close>

text \<open>
  A Python \<open>dict\<close> that the code iterates over is an association list in insertion
  order; \<open>d[k] = v\<close> is \<open>AList.update k v d\<close> and \<open>d[k]\<close> raises \<open>KeyError\<close> on a missing
  key.
\<close>

definition dict_get :: "('k \<times> 'v) list \<Rightarrow> 'k \<Rightarrow> py_error + 'v" where
  "dict_get d k = (case map_of d k of None \<Rightarrow> Inl KeyError | Some v \<Rightarrow> Inr v)"

text \<open>
  One entry of \<open>metadata.json\<close>: the file of the model embedding, the subjects' data
  files, and the two pairs of trim offsets.
\<close>

record story_meta =
  meta_model :: string
  model_trims :: "int \<times> int"
  meta_data :: "(string \<times> string) list"
  data_trims :: "int \<times> int"

text \<open>What \<open>load_inputs\<close> keeps of a story: \<open>inputs[story]['model']\<close> and \<open>['data']\<close>.\<close>

record story_inputs =
  story_model :: matrix
  story_data :: "(string \<times> matrix) list"

text \<open>
  \<open>a[trims[0]:(-trims[1] or None), :]\<close>: \<open>-trims[1] or None\<close> is \<open>None\<close> when the end
  offset is 0.
\<close>

definition trim_rows :: "int \<times> int \<Rightarrow> matrix \<Rightarrow> matrix" where
  "trim_rows trims a =
     slice_rows (Some (fst trims)) (if - snd trims = 0 then None else Some (- snd trims)) a"

text \<open>
  \<open>surf_data[:, mask]\<close> when \<open>mask\<close> is an array (a boolean vector, one entry per column):
  numpy raises \<open>IndexError\<close> when its length is not the column count.
\<close>

definition apply_mask :: "bool list option \<Rightarrow> matrix \<Rightarrow> py_error + matrix" where
  "apply_mask msk surf_data =
     (case msk of
        None \<Rightarrow> Inr surf_data
      | Some bs \<Rightarrow>
          (if length bs \<noteq> ncols surf_data then Inl IndexError
           else Inr (Matrix (length (filter id bs))
                       (map (\<lambda>r. map fst (filter snd (zip r bs))) (rows surf_data)))))"

text \<open>
  The loop over the subjects of a story. \<open>read_gifti\<close> is the reader of \<open>utils\<close>, a
  parameter; every file is taken to be readable. A row count that differs from the
  model's raises \<open>ValueError\<close>.
\<close>

fun load_subjects ::
  "(string \<Rightarrow> matrix) \<Rightarrow> int \<times> int \<Rightarrow> matrix \<Rightarrow> bool list option \<Rightarrow>
   (string \<times> string) list \<Rightarrow> (string \<times> matrix) list \<Rightarrow> py_error + (string \<times> matrix) list" where
  "load_subjects read_gifti trims model msk [] acc = Inr acc"
| "load_subjects read_gifti trims model msk ((subject, data_fn) # rest) acc =
     (let surf_data = trim_rows trims (read_gifti data_fn) in
      if nrows model \<noteq> nrows surf_data then Inl ValueError
      else
        (case apply_mask msk surf_data of
           Inl e \<Rightarrow> Inl e
         | Inr masked \<Rightarrow>
             load_subjects read_gifti trims model msk rest (AList.update subject masked acc)))"

text \<open>
  The loop over the stories. \<open>delay_embedding(embedding)\<close> runs with its defaults, the
  delays 2, 3, 4, 5 and no z-scoring.
\<close>

fun load_stories ::
  "(string \<Rightarrow> matrix) \<Rightarrow> (string \<Rightarrow> matrix) \<Rightarrow> (matrix \<Rightarrow> matrix) \<Rightarrow>
   (string \<times> story_meta) list \<Rightarrow> bool list option \<Rightarrow> string list \<Rightarrow>
   (string \<times> story_inputs) list \<Rightarrow> py_error + (string \<times> story_inputs) list" where
  "load_stories np_load read_gifti zscore metadata msk [] inputs = Inr inputs"
| "load_stories np_load read_gifti zscore metadata msk (story # rest) inputs =
     (case dict_get metadata story of
        Inl e \<Rightarrow> Inl e
      | Inr meta \<Rightarrow>
          (let embedding = trim_rows (model_trims meta) (np_load (meta_model meta)) in
           case delay_embedding zscore embedding [2, 3, 4, 5] False of
             Inl e \<Rightarrow> Inl e
           | Inr model \<Rightarrow>
               (case load_subjects read_gifti (data_trims meta) model msk (meta_data meta) [] of
                  Inl e \<Rightarrow> Inl e
                | Inr subject_data \<Rightarrow>
                    load_stories np_load read_gifti zscore metadata msk rest
                      (AList.update story
                         \<lparr>story_model = model, story_data = subject_data\<rparr> inputs))))"

text \<open>\<open>if not stories: stories = metadata.keys()\<close> covers \<open>None\<close> and the empty list.\<close>

definition requested_stories ::
  "(string \<times> story_meta) list \<Rightarrow> string list option \<Rightarrow> string list" where
  "requested_stories metadata stories =
     (case stories of
        None \<Rightarrow> map fst metadata
      | Some ss \<Rightarrow> (if ss = [] then map fst metadata else ss))"

definition load_inputs ::
  "(string \<Rightarrow> matrix) \<Rightarrow> (string \<Rightarrow> matrix) \<Rightarrow> (matrix \<Rightarrow> matrix) \<Rightarrow>
   (string \<times> story_meta) list \<Rightarrow> string list option \<Rightarrow> bool list option \<Rightarrow>
   py_error + (string \<times> story_inputs) list" where
  "load_inputs np_load read_gifti zscore metadata stories msk =
     load_stories np_load read_gifti zscore metadata msk (requested_stories metadata stories) []"

text \<open>
  The pairs of a story that \<open>load_inputs\<close> compares: the trimmed embedding and a subject's
  trimmed data; \<open>shape_mismatch\<close> says that some subject's row count differs.
\<close>

definition shape_mismatch ::
  "(string \<Rightarrow> matrix) \<Rightarrow> (string \<Rightarrow> matrix) \<Rightarrow> story_meta \<Rightarrow> bool" where
  "shape_mismatch np_load read_gifti meta =
     list_ex (\<lambda>(subject, data_fn).
                nrows (trim_rows (data_trims meta) (read_gifti data_fn)) \<noteq>
                nrows (trim_rows (model_trims meta) (np_load (meta_model meta))))
       (meta_data meta)"

definition mask_fits :: "bool list option \<Rightarrow> matrix \<Rightarrow> bool" where
  "mask_fits msk a = (case msk of None \<Rightarrow> True | Some bs \<Rightarrow> length bs = ncols a)"

section \<open>\<open>encoding_model.py\<close>: \<open>split_half\<close>\<close>

text \<open>
  The two orderings of a split: \<open>m[:midpoint]\<close> and \<open>m[midpoint:]\<close>, each z-scored on its
  own when asked, as \<open>[(first, second), (second, first)]\<close>. \<open>zscore\<close> is scipy's, a
  parameter.
\<close>

definition split_pair ::
  "(matrix \<Rightarrow> matrix) \<Rightarrow> bool \<Rightarrow> matrix \<Rightarrow> nat \<Rightarrow> (matrix \<times> matrix) list" where
  "split_pair zscore do_zscore m midpoint =
     (let first = slice_rows None (Some (int midpoint)) m;
          second = slice_rows (Some (int midpoint)) None m;
          first' = (if do_zscore then zscore first else first);
          second' = (if do_zscore then zscore second else second)
      in [(first', second'), (second', first')])"

text \<open>The loop over a story's subjects; the \<open>assert\<close> raises \<open>AssertionError\<close>.\<close>

fun split_subjects ::
  "(matrix \<Rightarrow> matrix) \<Rightarrow> bool \<Rightarrow> matrix \<Rightarrow> nat \<Rightarrow> (string \<times> matrix) list \<Rightarrow>
   (string \<times> (matrix \<times> matrix) list) list \<Rightarrow>
   py_error + (string \<times> (matrix \<times> matrix) list) list" where
  "split_subjects zscore zscore_data model midpoint [] acc = Inr acc"
| "split_subjects zscore zscore_data model midpoint ((subject, data) # rest) acc =
     (if nrows data \<noteq> nrows model then Inl AssertionError
      else split_subjects zscore zscore_data model midpoint rest
             (AList.update subject (split_pair zscore zscore_data data midpoint) acc))"

text \<open>The body of the loop over the stories, for one story.\<close>

definition split_story ::
  "(matrix \<Rightarrow> matrix) \<Rightarrow> bool \<Rightarrow> bool \<Rightarrow> story_inputs \<Rightarrow>
   py_error + (matrix \<times> matrix) list \<times> (string \<times> (matrix \<times> matrix) list) list" where
  "split_story zscore zscore_data zscore_model inp =
     (let model = story_model inp;
          midpoint = nrows model div 2
      in case split_subjects zscore zscore_data model midpoint (story_data inp) [] of
           Inl e \<Rightarrow> Inl e
         | Inr subject_splits \<Rightarrow>
             Inr (split_pair zscore zscore_model model midpoint, subject_splits))"

fun split_stories ::
  "(matrix \<Rightarrow> matrix) \<Rightarrow> bool \<Rightarrow> bool \<Rightarrow> (string \<times> story_inputs) list \<Rightarrow>
   (string \<times> (matrix \<times> matrix) list) list \<times>
   (string \<times> (string \<times> (matrix \<times> matrix) list) list) list \<Rightarrow>
   py_error + (string \<times> (matrix \<times> matrix) list) list \<times>
              (string \<times> (string \<times> (matrix \<times> matrix) list) list) list" where
  "split_stories zscore zscore_data zscore_model [] splits = Inr splits"
| "split_stories zscore zscore_data zscore_model ((story, inp) # rest) (model_splits, data_splits) =
     (case split_story zscore zscore_data zscore_model inp of
        Inl e \<Rightarrow> Inl e
      | Inr (model_pair, subject_splits) \<Rightarrow>
          split_stories zscore zscore_data zscore_model rest
            (AList.update story model_pair model_splits,
             AList.update story subject_splits data_splits))"

definition split_half ::
  "(matrix \<Rightarrow> matrix) \<Rightarrow> (string \<times> story_inputs) list \<Rightarrow> bool \<Rightarrow> bool \<Rightarrow>
   py_error + (string \<times> (matrix \<times> matrix) list) list \<times>
              (string \<times> (string \<times> (matrix \<times> matrix) list) list) list" where
  "split_half zscore inputs zscore_data zscore_model =
     split_stories zscore zscore_data zscore_model inputs ([], [])"

text \<open>
  The halves in the spec's words: rows \<open>0\<close> to \<open>midpoint - 1\<close>, and rows \<open>midpoint\<close> to the
  end; \<open>standardised\<close> z-scores a half when asked; \<open>mirror_pairs\<close> is the two-element
  list a split must be, and \<open>rows_match\<close> the precondition of a story (its \<open>data\<close> is a
  dict, and every subject has as many rows as the model).
\<close>

definition first_half :: "nat \<Rightarrow> matrix \<Rightarrow> matrix" where
  "first_half midpoint m = Matrix (ncols m) (take midpoint (rows m))"

definition second_half :: "nat \<Rightarrow> matrix \<Rightarrow> matrix" where
  "second_half midpoint m = Matrix (ncols m) (drop midpoint (rows m))"

definition standardised :: "(matrix \<Rightarrow> matrix) \<Rightarrow> bool \<Rightarrow> matrix \<Rightarrow> matrix" where
  "standardised zscore do_zscore h = (if do_zscore then zscore h else h)"

definition mirror_pairs ::
  "(matrix \<Rightarrow> matrix) \<Rightarrow> bool \<Rightarrow> nat \<Rightarrow> matrix \<Rightarrow> (matrix \<times> matrix) list" where
  "mirror_pairs zscore do_zscore midpoint m =
     [(standardised zscore do_zscore (first_half midpoint m),
       standardised zscore do_zscore (second_half midpoint m)),
      (standardised zscore do_zscore (second_half midpoint m),
       standardised zscore do_zscore (first_half midpoint m))]"

definition midpoint_of :: "story_inputs \<Rightarrow> nat" where
  "midpoint_of inp = nrows (story_model inp) div 2"

definition rows_match :: "story_inputs \<Rightarrow> bool" where
  "rows_match inp =
     (distinct (map fst (story_data inp)) \<and>
      list_all (\<lambda>(subject, data). nrows data = nrows (story_model inp)) (story_data inp))"

text \<open>Test data: one story with a model of three rows and one subject.\<close>

definition example_inputs :: "(string \<times> story_inputs) list" where
  "example_inputs =
     [(''forgot'',
       \<lparr>story_model = Matrix 1 [[Fin 1], [Fin 2], [Fin 3]],
        story_data = [(''sub-02'', Matrix 2 [[Fin 4, Fin 5], [Fin 6, Fin 7], [Fin 8, Fin 9]])]\<rparr>)]"

text \<open>
  For stating when \<open>load_inputs\<close> raises: \<open>story_mismatch\<close> says that the story is in the
  metadata and has a subject whose trimmed row count differs from the trimmed
  embedding's; \<open>story_loadable\<close> says that nothing else can raise for the story: it is in
  the metadata, its trimmed embedding has the five rows the greatest default delay
  needs, and the mask, if there is one, has one entry per column of every subject's
  data.
\<close>

definition story_mismatch ::
  "(string \<Rightarrow> matrix) \<Rightarrow> (string \<Rightarrow> matrix) \<Rightarrow> (string \<times> story_meta) list \<Rightarrow> string \<Rightarrow> bool" where
  "story_mismatch np_load read_gifti metadata story =
     (case map_of metadata story of
        None \<Rightarrow> False
      | Some meta \<Rightarrow> shape_mismatch np_load read_gifti meta)"

definition story_loadable ::
  "(string \<Rightarrow> matrix) \<Rightarrow> (string \<Rightarrow> matrix) \<Rightarrow> (string \<times> story_meta) list \<Rightarrow>
   bool list option \<Rightarrow> string \<Rightarrow> bool" where
  "story_loadable np_load read_gifti metadata msk story =
     (case map_of metadata story of
        None \<Rightarrow> False
      | Some meta \<Rightarrow>
          5 \<le> nrows (trim_rows (model_trims meta) (np_load (meta_model meta))) \<and>
          list_all (\<lambda>(subject, data_fn). mask_fits msk (read_gifti data_fn)) (meta_data meta))"

text \<open>
  Test data: a file system with embeddings of three and of seven rows and surface data
  of three, five and six rows, and metadata over it.
\<close>

definition example_files :: "string \<Rightarrow> matrix" where
  "example_files fn =
     (if fn = ''short.npy'' then Matrix 1 [[Fin 1], [Fin 2], [Fin 3]]
      else if fn = ''model.npy'' then
        Matrix 1 [[Fin 1], [Fin 2], [Fin 3], [Fin 4], [Fin 5], [Fin 6], [Fin 7]]
      else if fn = ''three.gii'' then Matrix 2 [[Fin 1, Fin 2], [Fin 3, Fin 4], [Fin 5, Fin 6]]
      else if fn = ''five.gii'' then
        Matrix 2 [[Fin 1, Fin 2], [Fin 3, Fin 4], [Fin 5, Fin 6], [Fin 7, Fin 8], [Fin 9, Fin 0]]
      else Matrix 2 [[Fin 1, Fin 2], [Fin 3, Fin 4], [Fin 5, Fin 6], [Fin 7, Fin 8],
                     [Fin 9, Fin 0], [Fin 1, Fin 1]])"

definition example_metadata :: "(string \<times> story_meta) list" where
  "example_metadata =
     [(''short'', \<lparr>meta_model = ''short.npy'', model_trims = (0, 0),
                   meta_data = [(''sub-01'', ''three.gii'')], data_trims = (0, 0)\<rparr>),
      (''black'', \<lparr>meta_model = ''model.npy'', model_trims = (1, 1),
                   meta_data = [(''sub-01'', ''five.gii'')], data_trims = (0, 0)\<rparr>),
      (''forgot'', \<lparr>meta_model = ''model.npy'', model_trims = (1, 1),
                    meta_data = [(''sub-01'', ''five.gii''), (''sub-02'', ''six.gii'')],
                    data_trims = (0, 0)\<rparr>)]"

section \<open>\<open>encoding_model.py\<close>: \<open>rank_accuracy\<close>\<close>

text \<open>
  A name used in a function body is looked up, at the call, among the names bound at the
  top level of the module (and then among Python's builtins, which hold neither of the
  names looked up below). \<open>module_globals\<close> lists every name that the imports, the
  assignments and the \<open>def\<close>s of \<open>encoding_model.py\<close> bind.
\<close>

definition module_globals :: "string list" where
  "module_globals =
     [''json'', ''np'', ''Ridge'', ''make_scorer'', ''GridSearchCV'', ''KFold'', ''zscore'',
      ''array_correlation'', ''read_gifti'', ''write_gifti'',
      ''f'', ''metadata'', ''n_vertices'', ''model_ndim'', ''delays'', ''mask'',
      ''delay_embedding'', ''load_inputs'', ''inputs'', ''split_half'',
      ''model_splits'', ''data_splits'', ''train_story'', ''test_story'',
      ''train_subject'', ''test_subject'', ''cv_fold'',
      ''train_model'', ''test_model'', ''train_data'', ''test_data'',
      ''correlation_scorer'', ''alpha'', ''ridge'', ''coefficients'', ''predicted_data'',
      ''performance'', ''collapse_coef'', ''collapse_test_model'', ''predicted_model'',
      ''rank_accuracy'', ''accuracy'', ''results'', ''template_fn'',
      ''grid_search'', ''alphas'', ''best_alphas'', ''best_scores'', ''all_scores'']"

definition lookup_global :: "string \<Rightarrow> py_error + unit" where
  "lookup_global name =
     (if name \<in> set module_globals then Inr () else Inl (NameError name))"

fun fsub :: "float64 \<Rightarrow> float64 \<Rightarrow> float64" where
  "fsub (Fin a) (Fin b) = Fin (a - b)"
| "fsub _ _ = NaN"

text \<open>
  The loop \<open>for index in np.arange(n_predictions):
  ranks.append(rankdata(correlations[index])[index])\<close>. \<open>rankdata\<close> stands for what the
  name would denote if it were bound.
\<close>

fun rank_rows ::
  "(float64 list \<Rightarrow> float64 list) \<Rightarrow> float64 list list \<Rightarrow> nat list \<Rightarrow> py_error + float64 list" where
  "rank_rows rankdata correlations [] = Inr []"
| "rank_rows rankdata correlations (index # rest) =
     (case lookup_global ''rankdata'' of
        Inl e \<Rightarrow> Inl e
      | Inr _ \<Rightarrow>
          (if length correlations \<le> index then Inl IndexError
           else
             (let ranked = rankdata (correlations ! index) in
              if length ranked \<le> index then Inl IndexError
              else
                (case rank_rows rankdata correlations rest of
                   Inl e \<Rightarrow> Inl e
                 | Inr ranks \<Rightarrow> Inr (ranked ! index # ranks)))))"

text \<open>The result of \<open>rank_accuracy\<close>: a number when \<open>mean\<close> is set, else the vector.\<close>

datatype rank_result = Mean float64 | Ranks "float64 list"

text \<open>
  \<open>rank_accuracy\<close>. \<open>cdist\<close> stands for what that name would denote if it were bound (the
  distance matrix for the metric \<open>'correlation'\<close>). The body reads \<open>predicted_model.shape\<close>,
  then looks \<open>cdist\<close> up.
\<close>

definition rank_accuracy ::
  "(matrix \<Rightarrow> matrix \<Rightarrow> matrix) \<Rightarrow> (float64 list \<Rightarrow> float64 list) \<Rightarrow>
   matrix \<Rightarrow> matrix \<Rightarrow> bool \<Rightarrow> py_error + rank_result" where
  "rank_accuracy cdist rankdata predicted_model test_model mean =
     (let n_predictions = nrows predicted_model in
      case lookup_global ''cdist'' of
        Inl e \<Rightarrow> Inl e
      | Inr _ \<Rightarrow>
          (let correlations = map (map (fsub (Fin 1))) (rows (cdist predicted_model test_model)) in
           case rank_rows rankdata correlations [0..<n_predictions] of
             Inl e \<Rightarrow> Inl e
           | Inr ranks \<Rightarrow>
               (let normalized = map (\<lambda>r. fdiv_nat r n_predictions) ranks in
                Inr (if mean then Mean (fmean normalized) else Ranks normalized))))"

section \<open>\<open>encoding_model.py\<close>: \<open>grid_search\<close>\<close>

text \<open>
  What the code reads of a fitted \<open>GridSearchCV\<close>: \<open>best_params_['alpha']\<close>,
  \<open>best_score_\<close>, and \<open>cv_results_['split<k>_test_score']\<close> for the split \<open>k\<close>.
\<close>

record grid_result =
  best_alpha :: float64
  best_score :: float64
  split_test_score :: "nat \<Rightarrow> float64 list"

text \<open>\<open>a[:, j]\<close>: column \<open>j\<close>, or \<open>IndexError\<close> when the matrix has no such column.\<close>

definition column :: "matrix \<Rightarrow> nat \<Rightarrow> py_error + float64 list" where
  "column a j = (if j < ncols a then Inr (map (\<lambda>r. r ! j) (rows a)) else Inl IndexError)"

text \<open>
  The loop over \<open>np.arange(n_voxels)\<close>. \<open>fit\<close> is \<open>grid.fit\<close> of sklearn, a parameter: it
  may raise. \<open>np.mean(split_scores, axis=0)\<close> stacks the score vectors of the splits and
  takes the mean of every column.
\<close>

fun grid_voxels ::
  "(matrix \<Rightarrow> float64 list \<Rightarrow> py_error + grid_result) \<Rightarrow> matrix \<Rightarrow> matrix \<Rightarrow> nat \<Rightarrow>
   nat list \<Rightarrow> float64 list \<times> float64 list \<times> float64 list list \<Rightarrow>
   py_error + float64 list \<times> float64 list \<times> float64 list list" where
  "grid_voxels fit train_model train_data n_splits [] acc = Inr acc"
| "grid_voxels fit train_model train_data n_splits (voxel # rest)
     (best_alphas, best_scores, all_scores) =
     (case column train_data voxel of
        Inl e \<Rightarrow> Inl e
      | Inr y \<Rightarrow>
          (case fit train_model y of
             Inl e \<Rightarrow> Inl e
           | Inr grid \<Rightarrow>
               (case vstack_rows (map (split_test_score grid) [0..<n_splits]) of
                  Inl e \<Rightarrow> Inl e
                | Inr split_scores \<Rightarrow>
                    grid_voxels fit train_model train_data n_splits rest
                      (best_alphas @ [best_alpha grid], best_scores @ [best_score grid],
                       all_scores @ [mean_axis0 split_scores]))))"

text \<open>\<open>np.column_stack\<close> of a list of vectors: each becomes a column.\<close>

definition column_stack :: "float64 list list \<Rightarrow> py_error + matrix" where
  "column_stack vs =
     (case vstack_rows vs of
        Inl e \<Rightarrow> Inl e
      | Inr m \<Rightarrow> Inr (Matrix (nrows m) (map (\<lambda>j. map (\<lambda>r. r ! j) (rows m)) [0..<ncols m])))"

text \<open>
  \<open>grid_search\<close>. \<open>grid_fit alphas n_splits\<close> is the fit of the \<open>GridSearchCV\<close> that the
  function sets up (ridge regression, the scorer, \<open>KFold(n_splits)\<close>); \<open>KFold\<close> raises for
  fewer than two splits. The number of voxels is taken from \<open>train_model.shape[1]\<close>.
\<close>

definition grid_search ::
  "(float64 list \<Rightarrow> nat \<Rightarrow> matrix \<Rightarrow> float64 list \<Rightarrow> py_error + grid_result) \<Rightarrow>
   matrix \<Rightarrow> matrix \<Rightarrow> float64 list \<Rightarrow> nat \<Rightarrow>
   py_error + float64 list \<times> float64 list \<times> matrix" where
  "grid_search grid_fit train_model train_data alphas n_splits =
     (let n_voxels = ncols train_model in
      if n_splits < 2 then Inl ValueError
      else
        (case grid_voxels (grid_fit alphas n_splits) train_model train_data n_splits
                [0..<n_voxels] ([], [], []) of
           Inl e \<Rightarrow> Inl e
         | Inr (best_alphas, best_scores, score_list) \<Rightarrow>
             (case column_stack score_list of
                Inl e \<Rightarrow> Inl e
              | Inr all_scores \<Rightarrow>
                  (if length best_alphas = length best_scores \<and>
                      length best_scores = ncols all_scores \<and> ncols all_scores = n_voxels
                   then Inr (best_alphas, best_scores, all_scores)
                   else Inl AssertionError))))"

text \<open>Test data: a fit that always succeeds, with one score per split for one alpha.\<close>

definition example_fit ::
  "float64 list \<Rightarrow> nat \<Rightarrow> matrix \<Rightarrow> float64 list \<Rightarrow> py_error + grid_result" where
  "example_fit alphas n_splits x y =
     Inr \<lparr>best_alpha = Fin 1, best_score = Fin 0, split_test_score = (\<lambda>k. [Fin 0])\<rparr>"

section \<open>\<open>ts_classification.py\<close>: the two loops over the results cache\<close>

text \<open>
  The results cache is a dict of dicts, four levels deep: story, region, method label,
  hemisphere. A leaf is the empty dict that the loops put in first, or a computed value.
\<close>

datatype 'v leaf = EmptyDict | Computed 'v

type_synonym 'v hemi_dict = "string \<rightharpoonup> 'v leaf"

type_synonym 'v results = "string \<rightharpoonup> (string \<rightharpoonup> (string \<rightharpoonup> 'v hemi_dict))"

type_synonym cache_key = "string \<times> string \<times> string \<times> string"

definition lookup4 :: "'v results \<Rightarrow> cache_key \<Rightarrow> 'v leaf option" where
  "lookup4 results k =
     (case k of (story, roi, label, hemi) \<Rightarrow>
        (case results story of
           None \<Rightarrow> None
         | Some by_roi \<Rightarrow>
             (case by_roi roi of
                None \<Rightarrow> None
              | Some by_label \<Rightarrow>
                  (case by_label label of
                     None \<Rightarrow> None
                   | Some by_hemi \<Rightarrow> by_hemi hemi))))"

text \<open>
  One level of a loop nest, \<open>for x in xs: if key(x) not in d: d[key(x)] = {}\<close> followed by
  a body that works on \<open>d[key(x)]\<close>. The state is the dict of this level and the list of
  the keys computed so far; an exception in the body ends the loop.
\<close>

fun for_keys ::
  "('a \<Rightarrow> string) \<Rightarrow> ('a \<Rightarrow> 'd \<times> cache_key list \<Rightarrow> py_error + 'd \<times> cache_key list) \<Rightarrow> 'd \<Rightarrow>
   'a list \<Rightarrow> (string \<rightharpoonup> 'd) \<times> cache_key list \<Rightarrow>
   py_error + (string \<rightharpoonup> 'd) \<times> cache_key list" where
  "for_keys key body fresh [] st = Inr st"
| "for_keys key body fresh (x # xs) (d, computed) =
     (case body x (case d (key x) of None \<Rightarrow> fresh | Some sub \<Rightarrow> sub, computed) of
        Inl e \<Rightarrow> Inl e
      | Inr (sub, computed') \<Rightarrow> for_keys key body fresh xs (d(key x \<mapsto> sub), computed'))"

text \<open>
  The innermost loop of the time-segment classification: the whole computation sits
  under \<open>if hemi not in results[story][roi][prefix[0]]\<close>. \<open>pipeline\<close> stands for loading
  the data, stacking the subjects, averaging for the label \<open>no SRM (average)\<close>, and
  \<open>time_segment_correlation\<close> with \<open>correlation_classification\<close>; its arguments are the
  story, the hemisphere, the file prefix and whether to average.
\<close>

fun ts_hemis ::
  "(string \<Rightarrow> string \<Rightarrow> string \<Rightarrow> bool \<Rightarrow> py_error + 'v) \<Rightarrow> string \<Rightarrow> string \<Rightarrow>
   string \<times> string \<Rightarrow> string list \<Rightarrow> 'v hemi_dict \<times> cache_key list \<Rightarrow>
   py_error + 'v hemi_dict \<times> cache_key list" where
  "ts_hemis pipeline story roi prefix [] st = Inr st"
| "ts_hemis pipeline story roi prefix (hemi # hemis) (d, computed) =
     (if hemi \<notin> dom d then
        (case pipeline story hemi (roi @ ''_'' @ snd prefix)
                (fst prefix = ''no SRM (average)'') of
           Inl e \<Rightarrow> Inl e
         | Inr accuracies \<Rightarrow>
             ts_hemis pipeline story roi prefix hemis
               ((d(hemi \<mapsto> EmptyDict))(hemi \<mapsto> Computed accuracies),
                computed @ [(story, roi, fst prefix, hemi)]))
      else ts_hemis pipeline story roi prefix hemis (d, computed))"

text \<open>
  The body of the loop over the prefixes: a label that starts with \<open>tSRM\<close> gets the
  story into its file prefix, \<open>prefix[1][:-4] + f'{story}-test'\<close>.
\<close>

definition ts_prefix ::
  "(string \<Rightarrow> string \<Rightarrow> string \<Rightarrow> bool \<Rightarrow> py_error + 'v) \<Rightarrow> string list \<Rightarrow> string \<Rightarrow> string \<Rightarrow>
   string \<times> string \<Rightarrow> 'v hemi_dict \<times> cache_key list \<Rightarrow>
   py_error + 'v hemi_dict \<times> cache_key list" where
  "ts_prefix pipeline hemis story roi prefix st =
     ts_hemis pipeline story roi
       (if take 4 (fst prefix) = ''tSRM''
        then (fst prefix, py_slice None (Some (- 4)) (snd prefix) @ story @ ''-test'')
        else prefix)
       hemis st"

definition ts_classification_loop ::
  "(string \<Rightarrow> string \<Rightarrow> string \<Rightarrow> bool \<Rightarrow> py_error + 'v) \<Rightarrow> string list \<Rightarrow> string list \<Rightarrow>
   (string \<times> string) list \<Rightarrow> string list \<Rightarrow> 'v results \<Rightarrow>
   py_error + 'v results \<times> cache_key list" where
  "ts_classification_loop pipeline stories rois prefixes hemis results =
     for_keys id
       (\<lambda>story. for_keys id
          (\<lambda>roi. for_keys fst (ts_prefix pipeline hemis story roi) Map.empty prefixes)
          Map.empty rois)
       Map.empty stories (results, [])"

text \<open>
  The innermost loop of the ISC computation: only the empty dict is put in under the
  \<open>if\<close>; loading, \<open>isc\<close> and the assignment of the result run for every hemisphere.
\<close>

fun isc_hemis ::
  "(string \<Rightarrow> string \<Rightarrow> string \<Rightarrow> bool \<Rightarrow> py_error + 'v) \<Rightarrow> string \<Rightarrow> string \<Rightarrow>
   string \<times> string \<Rightarrow> string list \<Rightarrow> 'v hemi_dict \<times> cache_key list \<Rightarrow>
   py_error + 'v hemi_dict \<times> cache_key list" where
  "isc_hemis pipeline story roi prefix [] st = Inr st"
| "isc_hemis pipeline story roi prefix (hemi # hemis) (d, computed) =
     (let d' = (if hemi \<notin> dom d then d(hemi \<mapsto> EmptyDict) else d) in
      case pipeline story hemi (roi @ ''_'' @ snd prefix)
             (fst prefix = ''no SRM (average)'') of
        Inl e \<Rightarrow> Inl e
      | Inr iscs \<Rightarrow>
          isc_hemis pipeline story roi prefix hemis
            (d'(hemi \<mapsto> Computed iscs), computed @ [(story, roi, fst prefix, hemi)]))"

definition isc_loop ::
  "(string \<Rightarrow> string \<Rightarrow> string \<Rightarrow> bool \<Rightarrow> py_error + 'v) \<Rightarrow> string list \<Rightarrow> string list \<Rightarrow>
   (string \<times> string) list \<Rightarrow> string list \<Rightarrow> 'v results \<Rightarrow>
   py_error + 'v results \<times> cache_key list" where
  "isc_loop pipeline stories rois prefixes hemis results =
     for_keys id
       (\<lambda>story. for_keys id
          (\<lambda>roi. for_keys fst (\<lambda>prefix. isc_hemis pipeline story roi prefix hemis)
                    Map.empty prefixes)
          Map.empty rois)
       Map.empty stories (results, [])"

text \<open>
  Reading a run: the leaf of a key after the loop, and the keys the loop computed.
  \<open>cached\<close> is a cache that holds one leaf, and \<open>fresh_value\<close> a pipeline that returns 1.
\<close>

definition leaf_after ::
  "py_error + 'v results \<times> cache_key list \<Rightarrow> cache_key \<Rightarrow> 'v leaf option" where
  "leaf_after run k = (case run of Inl e \<Rightarrow> None | Inr (results, computed) \<Rightarrow> lookup4 results k)"

definition computed_keys :: "py_error + 'v results \<times> cache_key list \<Rightarrow> cache_key list" where
  "computed_keys run = (case run of Inl e \<Rightarrow> [] | Inr (results, computed) \<Rightarrow> computed)"

definition cached :: "nat results" where
  "cached = [''black'' \<mapsto> [''EAC'' \<mapsto> [''no SRM'' \<mapsto> [''lh'' \<mapsto> Computed 0]]]]"

definition fresh_value :: "string \<Rightarrow> string \<Rightarrow> string \<Rightarrow> bool \<Rightarrow> py_error + nat" where
  "fresh_value story hemi file_prefix average = Inr 1"

text \<open>
  \<open>extends_by R d d'\<close>: every key of the dict \<open>d\<close> is a key of \<open>d'\<close>, with values related
  by \<open>R\<close>; nested three times over \<open>\<subseteq>\<^sub>m\<close> it says that a cache keeps its leaves.
\<close>

definition extends_by :: "('d \<Rightarrow> 'd \<Rightarrow> bool) \<Rightarrow> (string \<rightharpoonup> 'd) \<Rightarrow> (string \<rightharpoonup> 'd) \<Rightarrow> bool" where
  "extends_by R d d' = (\<forall>k sub. d k = Some sub \<longrightarrow> (\<exists>sub'. d' k = Some sub' \<and> R sub sub'))"

section \<open>Properties of \<open>delay_embedding\<close>\<close>

lemma py_slice_stop_neg:
  "0 < d \<Longrightarrow> py_slice None (Some (- d)) xs = take (length xs - nat d) xs"
proof -
  assume "0 < d"
  then have "nat (max 0 (int (length xs) - d)) = length xs - nat d"
    by linarith
  with \<open>0 < d\<close> show ?thesis
    by (simp add: py_slice_def slice_bound_def Let_def)
qed

lemma delay_block_pos:
  "0 < d \<Longrightarrow> delay_block emb d =
     Inr (Matrix (ncols emb)
            (replicate (nat d) (replicate (ncols emb) NaN) @ take (nrows emb - nat d) (rows emb)))"
  by (simp add: delay_block_def np_full_def vstack2_def slice_rows_def py_slice_stop_neg nrows_def)

lemma delay_block_neg: "d < 0 \<Longrightarrow> delay_block emb d = Inl ValueError"
  by (simp add: delay_block_def np_full_def)

lemma delay_blocks_pos:
  "\<forall>d\<in>set ds. 0 < d \<Longrightarrow> delay_blocks emb ds = Inr (map (pos_block emb) ds)"
  by (induction ds) (simp_all add: delay_block_pos pos_block_def)

lemma nrows_pos_block: "nrows (pos_block emb d) = max (nat d) (nrows emb)"
  by (simp add: pos_block_def nrows_def)

lemma ncols_pos_block: "ncols (pos_block emb d) = ncols emb"
  by (simp add: pos_block_def)

lemma sum_list_const: "sum_list (map (\<lambda>_. c::nat) xs) = c * length xs"
  by (induction xs) simp_all

lemma pos_block_row:
  assumes "0 < d" "r < max (nat d) (nrows emb)"
  shows "map nan_to_zero (rows (pos_block emb d) ! r) = delayed_row emb d r"
proof (cases "r < nat d")
  case True
  then have "int r < d" by linarith
  with True show ?thesis
    by (simp add: pos_block_def delayed_row_def nth_append nan_to_zero_def isnan_def)
next
  case False
  then have "r - nat d < nrows emb - nat d" using assms by auto
  moreover have "\<not> int r < d" using False by linarith
  ultimately show ?thesis using False
    by (simp add: pos_block_def delayed_row_def nth_append)
qed

lemma hstack_uniform:
  assumes "bs \<noteq> []" "\<forall>b\<in>set bs. nrows b = n"
  shows "hstack bs = Inr (Matrix (sum_list (map ncols bs))
                  (map (\<lambda>r. concat (map (\<lambda>b. rows b ! r) bs)) [0..<n]))"
  using assms by (cases bs) (auto simp: list_all_iff)

lemma hstack_mismatch:
  assumes "b1 \<in> set bs" "b2 \<in> set bs" "nrows b1 \<noteq> nrows b2"
  shows "hstack bs = Inl ValueError"
proof (cases bs)
  case Nil
  then show ?thesis by simp
next
  case (Cons m ms)
  have "\<exists>b\<in>set (m # ms). nrows b \<noteq> nrows m"
    using assms Cons by metis
  then have "\<not> list_all (\<lambda>b. nrows b = nrows m) ms"
    by (auto simp: list_all_iff)
  then show ?thesis using Cons by simp
qed

lemma delay_embedding_rows:
  assumes "delays \<noteq> []" "\<forall>d\<in>set delays. 0 < d"
    and "\<forall>d\<in>set delays. max (nat d) (nrows emb) = n"
  shows "delay_embedding zs emb delays False =
     Inr (Matrix (ncols emb * length delays)
            (map (\<lambda>r. concat (map (\<lambda>d. delayed_row emb d r) delays)) [0..<n]))"
proof -
  have blocks: "delay_blocks emb delays = Inr (map (pos_block emb) delays)"
    using assms(2) by (rule delay_blocks_pos)
  have hs: "hstack (map (pos_block emb) delays) =
      Inr (Matrix (ncols emb * length delays)
             (map (\<lambda>r. concat (map (\<lambda>b. rows b ! r) (map (pos_block emb) delays))) [0..<n]))"
    using assms(1,3) hstack_uniform [of "map (pos_block emb) delays" n]
    by (simp add: nrows_pos_block ncols_pos_block comp_def sum_list_const)
  have row: "map (map nan_to_zero) (map (\<lambda>r. concat (map (\<lambda>b. rows b ! r) (map (pos_block emb) delays))) [0..<n])
     = map (\<lambda>r. concat (map (\<lambda>d. delayed_row emb d r) delays)) [0..<n]"
  proof -
    have "map nan_to_zero (concat (map (\<lambda>d. rows (pos_block emb d) ! r) delays))
        = concat (map (\<lambda>d. delayed_row emb d r) delays)" if "r < n" for r
    proof -
      have "map nan_to_zero (concat (map (\<lambda>d. rows (pos_block emb d) ! r) delays))
          = concat (map (\<lambda>d. map nan_to_zero (rows (pos_block emb d) ! r)) delays)"
        by (simp add: map_concat comp_def)
      also have "\<dots> = concat (map (\<lambda>d. delayed_row emb d r) delays)"
        using assms(2,3) that
        by (intro arg_cong [where f = concat] map_cong refl pos_block_row) auto
      finally show ?thesis .
    qed
    then show ?thesis
      unfolding map_map comp_def by (intro map_cong refl) simp
  qed
  show ?thesis
    unfolding delay_embedding_def blocks hs sum.case Let_def matrix.sel row by simp
qed

lemma delay_embedding_mismatch:
  assumes "\<forall>d\<in>set delays. 0 < d" "d1 \<in> set delays" "d2 \<in> set delays"
    and "max (nat d1) (nrows emb) \<noteq> max (nat d2) (nrows emb)"
  shows "delay_embedding zs emb delays zf = Inl ValueError"
proof -
  have blocks: "delay_blocks emb delays = Inr (map (pos_block emb) delays)"
    using assms(1) by (rule delay_blocks_pos)
  have "hstack (map (pos_block emb) delays) = Inl ValueError"
    using assms(2-4) hstack_mismatch [of "pos_block emb d1" "map (pos_block emb) delays" "pos_block emb d2"]
    by (simp add: nrows_pos_block)
  then show ?thesis by (simp add: delay_embedding_def blocks)
qed

lemma concat_block:
  assumes "i < length ds" "\<forall>d\<in>set ds. length (f d) = n"
  shows "take n (drop (i * n) (concat (map f ds))) = f (ds ! i)"
  using assms
proof (induction ds arbitrary: i)
  case Nil
  then show ?case by simp
next
  case (Cons d ds)
  show ?case
  proof (cases i)
    case 0
    then show ?thesis using Cons.prems by simp
  next
    case (Suc j)
    then show ?thesis using Cons by simp
  qed
qed

lemma wf_matrix_nth: "wf_matrix m \<Longrightarrow> r < nrows m \<Longrightarrow> length (rows m ! r) = ncols m"
  by (simp add: wf_matrix_def nrows_def list_all_length)

lemma length_delayed_row:
  assumes "wf_matrix emb" "0 < d" "r < max (nat d) (nrows emb)"
  shows "length (delayed_row emb d r) = ncols emb"
proof (cases "int r < d")
  case True
  then show ?thesis by (simp add: delayed_row_def)
next
  case False
  then have "r - nat d < nrows emb" using assms(2,3) by linarith
  then show ?thesis using False assms(1) by (simp add: delayed_row_def wf_matrix_nth)
qed

lemma length_concat_const:
  "\<forall>x\<in>set xs. length (f x) = n \<Longrightarrow> length (concat (map f xs)) = n * length xs"
  by (induction xs) simp_all

lemma delay_embedding_result:
  assumes "wf_matrix emb" "delays \<noteq> []" "\<forall>d\<in>set delays. 0 < d"
    and "\<forall>d\<in>set delays. max (nat d) (nrows emb) = n"
  shows "\<exists>m. delay_embedding zs emb delays False = Inr m \<and>
           has_shape m n (ncols emb * length delays) \<and>
           (\<forall>i<length delays. \<forall>r<n.
              block_row m (ncols emb) i r = delayed_row emb (delays ! i) r)"
proof -
  let ?m = "Matrix (ncols emb * length delays)
            (map (\<lambda>r. concat (map (\<lambda>d. delayed_row emb d r) delays)) [0..<n])"
  have len: "length (delayed_row emb d r) = ncols emb" if "d \<in> set delays" "r < n" for d r
    using that assms(1,3,4) by (intro length_delayed_row) auto
  have res: "delay_embedding zs emb delays False = Inr ?m"
    using assms(2-4) by (rule delay_embedding_rows)
  have shape: "has_shape ?m n (ncols emb * length delays)"
    using len by (simp add: has_shape_def wf_matrix_def nrows_def list_all_iff length_concat_const)
  have blk: "block_row ?m (ncols emb) i r = delayed_row emb (delays ! i) r"
    if "i < length delays" "r < n" for i r
    using that len by (simp add: block_row_def concat_block)
  show ?thesis using res shape blk by blast
qed

text \<open>
  Claim C3, as amended. For an embedding of shape \<open>(T, F)\<close>, a non-empty list of \<open>k\<close>
  positive delays, each at most \<open>T\<close>, and \<open>zscore_features = False\<close>, \<open>delay_embedding\<close>
  returns a matrix of shape \<open>(T, F * k)\<close>. Its \<open>i\<close>-th block of \<open>F\<close> columns belongs to the
  \<open>i\<close>-th delay \<open>d\<close>: rows \<open>r < d\<close> of the block are zero, and row \<open>r\<close> with
  \<open>d \<le> r < T\<close> is row \<open>r - d\<close> of the input with every NaN replaced by zero, hence that
  input row itself when it holds no NaN.
\<close>

theorem delay_embedding_blocks:
  assumes "has_shape embedding T F" "delays \<noteq> []" "\<forall>d\<in>set delays. 0 < d \<and> d \<le> int T"
  shows "\<exists>m. delay_embedding zscore embedding delays False = Inr m \<and>
           has_shape m T (F * length delays) \<and>
           (\<forall>i<length delays. \<forall>r<T.
              block_row m F i r =
                (if int r < delays ! i then replicate F (Fin 0)
                 else map nan_to_zero (rows embedding ! (r - nat (delays ! i))))) \<and>
           (\<forall>i<length delays. \<forall>r<T.
              delays ! i \<le> int r \<and> NaN \<notin> set (rows embedding ! (r - nat (delays ! i))) \<longrightarrow>
              block_row m F i r = rows embedding ! (r - nat (delays ! i)))"
proof -
  have wf: "wf_matrix embedding" and T: "nrows embedding = T" and F: "ncols embedding = F"
    using assms(1) by (simp_all add: has_shape_def)
  have pos: "\<forall>d\<in>set delays. 0 < d" using assms(3) by blast
  have same: "\<forall>d\<in>set delays. max (nat d) (nrows embedding) = T"
    using assms(3) T by auto
  from delay_embedding_result [OF wf assms(2) pos same, of zscore]
  obtain m where m: "delay_embedding zscore embedding delays False = Inr m"
      "has_shape m T (F * length delays)"
      "\<And>i r. i < length delays \<Longrightarrow> r < T \<Longrightarrow>
          block_row m F i r = delayed_row embedding (delays ! i) r"
    using F by auto
  have id: "map nan_to_zero xs = xs" if "NaN \<notin> set xs" for xs
    using that by (induction xs) (auto simp: nan_to_zero_def isnan_def)
  have "block_row m F i r = rows embedding ! (r - nat (delays ! i))"
    if "i < length delays" "r < T" "delays ! i \<le> int r"
       "NaN \<notin> set (rows embedding ! (r - nat (delays ! i)))" for i r
    using that m(3) [of i r] by (simp add: delayed_row_def id)
  moreover have "block_row m F i r =
                (if int r < delays ! i then replicate F (Fin 0)
                 else map nan_to_zero (rows embedding ! (r - nat (delays ! i))))"
    if "i < length delays" "r < T" for i r
    using that m(3) [of i r] F by (simp add: delayed_row_def)
  ultimately show ?thesis using m(1,2) by blast
qed

text \<open>
  Claim C4, as amended. Let the embedding have \<open>T\<close> rows and \<open>F\<close> columns, all delays be
  positive and the \<open>i\<close>-th delay \<open>d\<close> be at least \<open>T\<close>. The block of \<open>d\<close> has \<open>d\<close> rows
  (the padding alone), so \<open>np.hstack\<close> accepts the blocks exactly when every delay \<open>d'\<close>
  of the list has \<open>max d' T = d\<close>. Then \<open>delay_embedding\<close> returns a matrix of \<open>d\<close> rows
  whose block for \<open>d\<close> is all zero; otherwise it raises \<open>ValueError\<close>.
\<close>

theorem delay_embedding_long_delay:
  assumes "has_shape embedding T F" "i < length delays" "\<forall>d\<in>set delays. 0 < d"
    and "int T \<le> delays ! i"
  shows "((\<forall>d\<in>set delays. max d (int T) = delays ! i) \<longrightarrow>
            (\<exists>m. delay_embedding zscore embedding delays False = Inr m \<and>
                 has_shape m (nat (delays ! i)) (F * length delays) \<and>
                 (\<forall>r<nat (delays ! i). block_row m F i r = replicate F (Fin 0)))) \<and>
         (\<not> (\<forall>d\<in>set delays. max d (int T) = delays ! i) \<longrightarrow>
            delay_embedding zscore embedding delays False = Inl ValueError)"
proof (intro conjI impI)
  have wf: "wf_matrix embedding" and T: "nrows embedding = T" and F: "ncols embedding = F"
    using assms(1) by (simp_all add: has_shape_def)
  have ne: "delays \<noteq> []" using assms(2) by auto
  have di: "delays ! i \<in> set delays" using assms(2) by simp
  {
    assume all: "\<forall>d\<in>set delays. max d (int T) = delays ! i"
    have same: "\<forall>d\<in>set delays. max (nat d) (nrows embedding) = nat (delays ! i)"
    proof
      fix d assume "d \<in> set delays"
      then have "max d (int T) = delays ! i" using all by blast
      then show "max (nat d) (nrows embedding) = nat (delays ! i)" using T by linarith
    qed
    from delay_embedding_result [OF wf ne assms(3) same, of zscore]
    obtain m where m: "delay_embedding zscore embedding delays False = Inr m"
      "has_shape m (nat (delays ! i)) (F * length delays)"
      "\<And>j r. j < length delays \<Longrightarrow> r < nat (delays ! i) \<Longrightarrow>
          block_row m F j r = delayed_row embedding (delays ! j) r"
      using F by auto
    have "block_row m F i r = replicate F (Fin 0)" if "r < nat (delays ! i)" for r
    proof -
      have "int r < delays ! i" using that by linarith
      then show ?thesis using m(3) [OF assms(2) that] F by (simp add: delayed_row_def)
    qed
    then show "\<exists>m. delay_embedding zscore embedding delays False = Inr m \<and>
                 has_shape m (nat (delays ! i)) (F * length delays) \<and>
                 (\<forall>r<nat (delays ! i). block_row m F i r = replicate F (Fin 0))"
      using m(1,2) by blast
  }
  {
    assume "\<not> (\<forall>d\<in>set delays. max d (int T) = delays ! i)"
    then obtain d where d: "d \<in> set delays" "max d (int T) \<noteq> delays ! i" by blast
    have "0 < d" "0 < delays ! i" using assms(3) d(1) di by auto
    then have "max (nat d) (nrows embedding) \<noteq> max (nat (delays ! i)) (nrows embedding)"
      using d(2) assms(4) T by linarith
    then show "delay_embedding zscore embedding delays False = Inl ValueError"
      using delay_embedding_mismatch [OF assms(3) d(1) di] by blast
  }
qed

text \<open>The theorem for C3 at a 3 by 2 embedding with delays 1 and 2.\<close>

theorem delay_embedding_blocks_witness:
  "has_shape (Matrix 2 [[Fin 1, Fin 2], [Fin 3, Fin 4], [Fin 5, Fin 6]]) 3 2 \<and>
   (\<exists>m. delay_embedding id (Matrix 2 [[Fin 1, Fin 2], [Fin 3, Fin 4], [Fin 5, Fin 6]])
           [1, 2] False = Inr m \<and>
        has_shape m 3 4 \<and>
        block_row m 2 1 1 = [Fin 0, Fin 0] \<and>
        block_row m 2 1 2 = [Fin 1, Fin 2])"
proof -
  let ?e = "Matrix 2 [[Fin 1, Fin 2], [Fin 3, Fin 4], [Fin 5, Fin 6]]"
  have h1: "has_shape ?e 3 2"
    by (simp add: has_shape_def wf_matrix_def nrows_def)
  have h2: "[1, 2 :: int] \<noteq> []" by simp
  have h3: "\<forall>d\<in>set [1, 2 :: int]. 0 < d \<and> d \<le> int 3" by simp
  from delay_embedding_blocks [OF h1 h2 h3, of id]
  obtain m where m: "delay_embedding id ?e [1, 2] False = Inr m" "has_shape m 3 (2 * length [1, 2 :: int])"
    "\<forall>i<length [1, 2 :: int]. \<forall>r<3.
              block_row m 2 i r =
                (if int r < [1, 2] ! i then replicate 2 (Fin 0)
                 else map nan_to_zero (rows ?e ! (r - nat ([1, 2] ! i))))"
    by blast
  have "block_row m 2 1 1 = [Fin 0, Fin 0]"
    using m(3) [rule_format, of 1 1] by (simp add: numeral_2_eq_2)
  moreover have "block_row m 2 1 2 = [Fin 1, Fin 2]"
    using m(3) [rule_format, of 1 2] by (simp add: nan_to_zero_def isnan_def)
  ultimately show ?thesis using h1 m(1,2) by auto
qed

text \<open>
  C3 as it was stated fails: a NaN of the input comes out as zero (row 1 of the block for
  delay 1 is not row 0 of the input), and an empty delay list raises.
\<close>

theorem delay_embedding_blocks_counterexample:
  "delay_embedding id (Matrix 1 [[NaN], [Fin 1]]) [1] False = Inr (Matrix 1 [[Fin 0], [Fin 0]]) \<and>
   block_row (Matrix 1 [[Fin 0], [Fin 0]]) 1 0 1 \<noteq> rows (Matrix 1 [[NaN], [Fin 1]]) ! (1 - 1) \<and>
   delay_embedding id (Matrix 1 [[Fin 1], [Fin 2]]) [] False = Inl ValueError"
  by (simp add: delay_embedding_def delay_block_def np_full_def vstack2_def slice_rows_def
      py_slice_def slice_bound_def nrows_def nan_to_zero_def isnan_def block_row_def)

text \<open>The theorem for C4 at a 3 by 1 embedding with delays 4 and 4.\<close>

theorem delay_embedding_long_delay_witness:
  "has_shape (Matrix 1 [[Fin 1], [Fin 2], [Fin 3]]) 3 1 \<and>
   (\<exists>m. delay_embedding id (Matrix 1 [[Fin 1], [Fin 2], [Fin 3]]) [4, 4] False = Inr m \<and>
        has_shape m 4 2 \<and> block_row m 1 0 3 = [Fin 0])"
proof -
  let ?e = "Matrix 1 [[Fin 1], [Fin 2], [Fin 3]]"
  have h1: "has_shape ?e 3 1"
    by (simp add: has_shape_def wf_matrix_def nrows_def)
  have h2: "0 < length [4, 4 :: int]" by simp
  have h3: "\<forall>d\<in>set [4, 4 :: int]. 0 < d" by simp
  have h4: "int 3 \<le> [4, 4] ! 0" by simp
  have h5: "\<forall>d\<in>set [4, 4 :: int]. max d (int 3) = [4, 4] ! 0" by simp
  from delay_embedding_long_delay [OF h1 h2 h3 h4, of id] h5
  obtain m where m: "delay_embedding id ?e [4, 4] False = Inr m"
    "has_shape m (nat ([4, 4] ! 0)) (1 * length [4, 4 :: int])"
    "\<forall>r<nat ([4, 4] ! 0). block_row m 1 0 r = replicate 1 (Fin 0)"
    by blast
  have "block_row m 1 0 3 = [Fin 0]" using m(3) by simp
  moreover have "has_shape m 4 2" using m(2) by (simp add: numeral_2_eq_2)
  ultimately show ?thesis using h1 m(1) by auto
qed

text \<open>
  C4 as it was stated fails: with 3 rows and delays 2 and 5 the blocks have 3 and 5 rows
  and \<open>np.hstack\<close> raises; with 1 row and the delay 2 the result has 2 rows, not 1.
\<close>

theorem delay_embedding_long_delay_counterexample:
  "delay_embedding id (Matrix 1 [[Fin 1], [Fin 2], [Fin 3]]) [2, 5] False = Inl ValueError \<and>
   delay_embedding id (Matrix 1 [[Fin 1]]) [2] False = Inr (Matrix 1 [[Fin 0], [Fin 0]]) \<and>
   nrows (Matrix 1 [[Fin 1]]) = 1 \<and> nrows (Matrix 1 [[Fin 0], [Fin 0]]) = 2"
  by (simp add: delay_embedding_def delay_block_def np_full_def vstack2_def slice_rows_def
      py_slice_def slice_bound_def nrows_def nan_to_zero_def isnan_def upt_conv_Cons
      eval_nat_numeral)

section \<open>Properties of \<open>time_segmentation\<close> and \<open>correlation_classification\<close>\<close>

lemma split_sizes_exact:
  "sum_list ks = length xs \<Longrightarrow>
     concat (split_sizes ks xs) = xs \<and> map length (split_sizes ks xs) = ks"
  by (induction ks arbitrary: xs) auto

lemma array_split_even:
  assumes "0 < n" "nrows ary = n * k"
  shows "\<exists>chunks. array_split ary (int n) = Inr (map (Matrix (ncols ary)) chunks) \<and>
           length chunks = n \<and> (\<forall>c\<in>set chunks. length c = k) \<and> concat chunks = rows ary"
proof -
  let ?chunks = "split_sizes (replicate n k) (rows ary)"
  have "sum_list (replicate n k) = length (rows ary)"
    using assms(2) by (simp add: sum_list_replicate nrows_def)
  then have c: "concat ?chunks = rows ary" "map length ?chunks = replicate n k"
    using split_sizes_exact by blast+
  have len: "length ?chunks = n"
    using c(2) by (metis length_map length_replicate)
  have each: "\<forall>c\<in>set ?chunks. length c = k"
  proof
    fix c assume "c \<in> set ?chunks"
    then have "length c \<in> set (map length ?chunks)" by simp
    then show "length c = k" using c(2) by simp
  qed
  have "array_split ary (int n) = Inr (map (Matrix (ncols ary)) ?chunks)"
    using assms by (simp add: array_split_def Let_def)
  then show ?thesis using c(1) len each by blast
qed

lemma vstack_rows_uniform:
  assumes "rs \<noteq> []" "\<forall>r\<in>set rs. length r = w"
  shows "vstack_rows rs = Inr (Matrix w rs)"
  using assms by (cases rs) (auto simp: vstack_rows_def list_all_iff)

lemma length_concat_rows:
  "\<forall>r\<in>set c. length r = f \<Longrightarrow> length (concat c) = length c * f"
  by (induction c) simp_all

lemma time_segmentation_trimmed:
  assumes "nrows data = T" "int n = int T div L" "1 \<le> n"
  shows "time_segmentation data L average =
     (case array_split (Matrix (ncols data) (take (T - T mod n) (rows data))) (int n) of
        Inl e \<Rightarrow> Inl e
      | Inr segments \<Rightarrow> vstack_rows (map (if average then mean_axis0 else ravel) segments))"
proof -
  have L: "L \<noteq> 0" using assms(2,3) by (cases "L = 0") auto
  have n0: "int T div L \<noteq> 0" using assms(2,3) by linarith
  have md: "int T mod (int T div L) = int (T mod n)"
    using assms(2) by (metis zmod_int)
  show ?thesis
  proof (cases "T mod n = 0")
    case True
    have "Matrix (ncols data) (take (T - T mod n) (rows data)) = data"
      using True assms(1) by (simp add: nrows_def)
    then show ?thesis
      using True L n0 md assms(1,2)
      by (simp add: time_segmentation_def Let_def)
  next
    case False
    then have pos: "0 < int (T mod n)" by simp
    have "slice_rows None (Some (- int (T mod n))) data =
          Matrix (ncols data) (take (T - T mod n) (rows data))"
      using py_slice_stop_neg [OF pos, of "rows data"] assms(1)
      by (simp add: slice_rows_def nrows_def)
    then show ?thesis
      using False L n0 md assms(1,2)
      by (simp add: time_segmentation_def Let_def)
  qed
qed

text \<open>
  Claim C5. For a data matrix of \<open>T\<close> rows and a segment length \<open>L\<close> with
  \<open>n = T div L \<ge> 1\<close>, \<open>time_segmentation\<close> returns \<open>n\<close> segments: the rows left after
  dropping the last \<open>T mod n\<close> are cut into \<open>n\<close> consecutive chunks of equal length, and
  each chunk becomes one row, flattened, or averaged over its rows when \<open>average\<close> is set.
\<close>

theorem time_segmentation_segments:
  assumes "wf_matrix data" "nrows data = T" "int n = int T div L" "1 \<le> n"
  shows "\<exists>segs chunks.
           time_segmentation data L average = Inr segs \<and> nrows segs = n \<and>
           length chunks = n \<and>
           (\<forall>c\<in>set chunks. length c = (T - T mod n) div n) \<and>
           concat chunks = take (T - T mod n) (rows data) \<and>
           rows segs = map (\<lambda>c. if average then mean_axis0 (Matrix (ncols data) c)
                                else ravel (Matrix (ncols data) c)) chunks"
proof -
  let ?F = "ncols data"
  let ?k = "(T - T mod n) div n"
  let ?trimmed = "Matrix ?F (take (T - T mod n) (rows data))"
  let ?f = "if average then mean_axis0 else ravel"
  have npos: "0 < n" using assms(4) by simp
  have "n dvd (T - T mod n)" by (simp add: dvd_minus_mod)
  then have "nrows ?trimmed = n * ?k"
    using assms(2) by (simp add: nrows_def)
  from array_split_even [OF npos this]
  obtain chunks where ch: "array_split ?trimmed (int n) = Inr (map (Matrix ?F) chunks)"
      "length chunks = n" "\<forall>c\<in>set chunks. length c = ?k"
      "concat chunks = take (T - T mod n) (rows data)"
    by auto
  have ne: "map ?f (map (Matrix ?F) chunks) \<noteq> []"
    using ch(2) npos by auto
  have rowlen: "length r = ?F" if "c \<in> set chunks" "r \<in> set c" for c r
  proof -
    have "r \<in> set (concat chunks)" using that by auto
    then have "r \<in> set (rows data)" using ch(4) by (auto dest: in_set_takeD)
    then show ?thesis using assms(1) by (simp add: wf_matrix_def list_all_iff)
  qed
  have width: "\<forall>r\<in>set (map ?f (map (Matrix ?F) chunks)).
                  length r = (if average then ?F else ?k * ?F)"
  proof (cases average)
    case True
    then show ?thesis by (simp add: mean_axis0_def)
  next
    case False
    have "length (concat c) = ?k * ?F" if "c \<in> set chunks" for c
      using length_concat_rows [of c ?F] rowlen [OF that] ch(3) that by simp
    then show ?thesis using False by (simp add: ravel_def)
  qed
  have "time_segmentation data L average = vstack_rows (map ?f (map (Matrix ?F) chunks))"
    using time_segmentation_trimmed [OF assms(2-4), of average] ch(1) by simp
  also have "\<dots> = Inr (Matrix (if average then ?F else ?k * ?F) (map ?f (map (Matrix ?F) chunks)))"
    using ne width by (rule vstack_rows_uniform)
  finally have res: "time_segmentation data L average =
      Inr (Matrix (if average then ?F else ?k * ?F) (map ?f (map (Matrix ?F) chunks)))" .
  have "rows (Matrix (if average then ?F else ?k * ?F) (map ?f (map (Matrix ?F) chunks))) =
        map (\<lambda>c. if average then mean_axis0 (Matrix ?F c) else ravel (Matrix ?F c)) chunks"
    by simp
  moreover have "nrows (Matrix (if average then ?F else ?k * ?F) (map ?f (map (Matrix ?F) chunks))) = n"
    using ch(2) by (simp add: nrows_def)
  ultimately show ?thesis using res ch(2,3,4) by blast
qed

lemma fgt_fmax: "fgt d (fmax x y) \<longleftrightarrow> fgt d x \<and> fgt d y"
  by (cases d; cases x; cases y) auto

lemma fgt_foldl_fmax: "fgt d (foldl fmax x xs) \<longleftrightarrow> fgt d x \<and> (\<forall>y\<in>set xs. fgt d y)"
  by (induction xs arbitrary: x) (auto simp: fgt_fmax)

lemma fgt_amax:
  assumes "xs \<noteq> []"
  shows "\<exists>m. amax xs = Inr m \<and> (fgt d m \<longleftrightarrow> (\<forall>y\<in>set xs. fgt d y))"
  using assms by (cases xs) (auto simp: amax_def fgt_foldl_fmax)

lemma count_hits_step:
  assumes "i < length row" "2 \<le> length row"
  shows "count_hits (row # rest) i h = count_hits rest (Suc i) (if row_hit row i then Suc h else h)"
proof -
  let ?offs = "filter (\<lambda>off. off \<noteq> i) [0..<length row]"
  have "\<exists>j<length row. j \<noteq> i"
  proof (cases "i = 0")
    case True
    then show ?thesis using assms(2) by (intro exI [of _ 1]) simp
  next
    case False
    then show ?thesis using assms(2) by (intro exI [of _ 0]) auto
  qed
  then have "map (\<lambda>off. row ! off) ?offs \<noteq> []"
    by (auto simp: filter_empty_conv)
  from fgt_amax [OF this, of "row ! i"]
  obtain m where m: "amax (map (\<lambda>off. row ! off) ?offs) = Inr m"
      "fgt (row ! i) m \<longleftrightarrow> (\<forall>y\<in>set (map (\<lambda>off. row ! off) ?offs). fgt (row ! i) y)"
    by blast
  have "fgt (row ! i) m \<longleftrightarrow> row_hit row i"
    unfolding m(2) row_hit_def by auto
  then show ?thesis using assms(1) m(1) by simp
qed

lemma filter_upt_Suc:
  "length (filter P [0..<Suc n]) =
     (if P 0 then 1 else 0) + length (filter (\<lambda>k. P (Suc k)) [0..<n])"
proof -
  have "[0..<Suc n] = 0 # map Suc [0..<n]"
    by (simp add: upt_conv_Cons map_Suc_upt del: upt_Suc)
  then have "filter P [0..<Suc n] = filter P (0 # map Suc [0..<n])" by simp
  then show ?thesis by (simp add: filter_map comp_def del: upt_Suc)
qed

lemma count_hits_rows:
  assumes "\<forall>row\<in>set rs. length row = m" "i + length rs \<le> m" "2 \<le> m"
  shows "count_hits rs i h =
           Inr (h + length (filter (\<lambda>k. row_hit (rs ! k) (i + k)) [0..<length rs]))"
  using assms
proof (induction rs arbitrary: i h)
  case Nil
  then show ?case by simp
next
  case (Cons row rest)
  have len: "length row = m" using Cons.prems(1) by simp
  have i: "i < length row" "2 \<le> length row" using Cons.prems(2,3) len by auto
  have IH: "count_hits rest (Suc i) h' =
      Inr (h' + length (filter (\<lambda>k. row_hit (rest ! k) (Suc i + k)) [0..<length rest]))" for h'
    using Cons.prems by (intro Cons.IH) auto
  show ?case
    unfolding count_hits_step [OF i] IH
    by (simp add: filter_upt_Suc del: upt_Suc)
qed

lemma classify_slices_map:
  assumes "n \<noteq> 0" "\<forall>x\<in>set xs. count_hits (f x) 0 0 = Inr (g x)"
  shows "classify_slices n (map f xs) = Inr (map (\<lambda>x. Fin (real (g x) / real n)) xs)"
  using assms by (induction xs) (simp_all add: py_truediv_def)

lemma slice_hits:
  assumes "wf_tensor3 t" "length (cells t) = n" "dim1 t = n" "2 \<le> n" "s < dim2 t"
  shows "count_hits (map (map (\<lambda>c. c ! s)) (cells t)) 0 0 =
           Inr (length (filter (segment_hit t s) [0..<n]))"
proof -
  let ?rs = "map (map (\<lambda>c. c ! s)) (cells t)"
  have rowlen: "length (cells t ! k) = n" if "k < n" for k
    using assms(1-3) that by (simp add: wf_tensor3_def list_all_length)
  have "\<forall>row\<in>set ?rs. length row = n"
    using assms(1,3) by (auto simp: wf_tensor3_def list_all_iff)
  moreover have "0 + length ?rs \<le> n" using assms(2) by simp
  ultimately have "count_hits ?rs 0 0 =
      Inr (0 + length (filter (\<lambda>k. row_hit (?rs ! k) (0 + k)) [0..<length ?rs]))"
    using assms(4) by (rule count_hits_rows)
  moreover have "row_hit (?rs ! k) k \<longleftrightarrow> segment_hit t s k" if "k < n" for k
    using that assms(2,3) rowlen [OF that]
    by (auto simp: row_hit_def segment_hit_def list_all_iff)
  then have "filter (\<lambda>k. row_hit (?rs ! k) k) [0..<n] = filter (segment_hit t s) [0..<n]"
    by (intro filter_cong refl) simp
  ultimately show ?thesis
    using assms(2) by simp
qed

text \<open>
  Claim C6. For a correlation tensor of shape \<open>(n, n, S)\<close> with \<open>n \<ge> 2\<close>,
  \<open>correlation_classification\<close> returns, for every subject, the number of hits divided
  by \<open>n\<close>, and the chance level \<open>1 / n\<close> (0.1 for \<open>n = 10\<close>); segment \<open>i\<close> is a hit exactly
  when its diagonal entry is strictly greater than every other entry of row \<open>i\<close>, so a tie
  is no hit.
\<close>

theorem correlation_classification_hits:
  assumes "wf_tensor3 t" "length (cells t) = n" "dim1 t = n" "dim2 t = S" "2 \<le> n"
  shows "correlation_classification t =
           Inr (map (\<lambda>s. Fin (real (length (filter (segment_hit t s) [0..<n])) / real n)) [0..<S],
                Fin (1 / real n))"
proof -
  have n: "n \<noteq> 0" using assms(5) by simp
  have hits: "count_hits (map (map (\<lambda>c. c ! s)) (cells t)) 0 0 =
           Inr (length (filter (segment_hit t s) [0..<n]))" if "s < S" for s
    using slice_hits [OF assms(1-3,5)] that assms(4) by simp
  have "classify_slices n (moveaxis_2_0 t) =
          Inr (map (\<lambda>s. Fin (real (length (filter (segment_hit t s) [0..<n])) / real n)) [0..<S])"
    unfolding moveaxis_2_0_def assms(4)
    using n by (rule classify_slices_map) (simp add: hits)
  then show ?thesis
    using assms(2) n by (simp add: correlation_classification_def py_truediv_def)
qed

text \<open>
  The theorem for C5 at \<open>T = 23\<close>, \<open>L = 5\<close>: four segments, rows 20 to 22 dropped; and
  the values for \<open>T = 20\<close>, where nothing is dropped.
\<close>

theorem time_segmentation_segments_witness:
  "wf_matrix (ramp 23) \<and> nrows (ramp 23) = 23 \<and> int 4 = int 23 div 5 \<and>
   (\<exists>segs. time_segmentation (ramp 23) 5 False = Inr segs \<and> nrows segs = 4) \<and>
   time_segmentation (ramp 23) 5 False =
     Inr (Matrix 5 [[Fin 0, Fin 1, Fin 2, Fin 3, Fin 4], [Fin 5, Fin 6, Fin 7, Fin 8, Fin 9],
                    [Fin 10, Fin 11, Fin 12, Fin 13, Fin 14],
                    [Fin 15, Fin 16, Fin 17, Fin 18, Fin 19]]) \<and>
   time_segmentation (ramp 20) 5 False =
     Inr (Matrix 5 [[Fin 0, Fin 1, Fin 2, Fin 3, Fin 4], [Fin 5, Fin 6, Fin 7, Fin 8, Fin 9],
                    [Fin 10, Fin 11, Fin 12, Fin 13, Fin 14],
                    [Fin 15, Fin 16, Fin 17, Fin 18, Fin 19]]) \<and>
   time_segmentation (ramp 20) 5 True = Inr (Matrix 1 [[Fin 2], [Fin 7], [Fin 12], [Fin 17]])"
proof -
  have h1: "wf_matrix (ramp 23)" by code_simp
  have h2: "nrows (ramp 23) = 23" by code_simp
  have h3: "int 4 = int 23 div 5" by simp
  have h4: "(1::nat) \<le> 4" by simp
  from time_segmentation_segments [OF h1 h2 h3 h4, of False]
  have "\<exists>segs. time_segmentation (ramp 23) 5 False = Inr segs \<and> nrows segs = 4"
    by blast
  moreover have "time_segmentation (ramp 23) 5 False =
     Inr (Matrix 5 [[Fin 0, Fin 1, Fin 2, Fin 3, Fin 4], [Fin 5, Fin 6, Fin 7, Fin 8, Fin 9],
                    [Fin 10, Fin 11, Fin 12, Fin 13, Fin 14],
                    [Fin 15, Fin 16, Fin 17, Fin 18, Fin 19]])"
    by code_simp
  moreover have "time_segmentation (ramp 20) 5 False =
     Inr (Matrix 5 [[Fin 0, Fin 1, Fin 2, Fin 3, Fin 4], [Fin 5, Fin 6, Fin 7, Fin 8, Fin 9],
                    [Fin 10, Fin 11, Fin 12, Fin 13, Fin 14],
                    [Fin 15, Fin 16, Fin 17, Fin 18, Fin 19]])"
    by code_simp
  moreover have "time_segmentation (ramp 20) 5 True =
     Inr (Matrix 1 [[Fin 2], [Fin 7], [Fin 12], [Fin 17]])"
    by code_simp
  ultimately show ?thesis using h1 h2 h3 by blast
qed

text \<open>
  The theorem for C6 at the 3 by 3 slice of the spec: hits True, False, False and
  accuracy 1/3; and at a tensor of ten segments (and no subject): chance 0.1.
\<close>

theorem correlation_classification_hits_witness:
  "wf_tensor3 example_slice \<and>
   correlation_classification example_slice = Inr ([Fin (1 / 3)], Fin (1 / 3)) \<and>
   map (segment_hit example_slice 0) [0, 1, 2] = [True, False, False] \<and>
   correlation_classification (Tensor3 10 0 (replicate 10 (replicate 10 []))) =
     Inr ([], Fin 0.1)"
proof -
  have h1: "wf_tensor3 example_slice" by code_simp
  have h2: "length (cells example_slice) = 3" by code_simp
  have h3: "dim1 example_slice = 3" by code_simp
  have h4: "dim2 example_slice = 1" by code_simp
  have h5: "(2::nat) \<le> 3" by simp
  have hits: "map (segment_hit example_slice 0) [0, 1, 2] = [True, False, False]"
    by code_simp
  have "length (filter (segment_hit example_slice 0) [0..<3]) = 1"
    by code_simp
  then have "correlation_classification example_slice = Inr ([Fin (1 / 3)], Fin (1 / 3))"
    using correlation_classification_hits [OF h1 h2 h3 h4 h5] by simp
  moreover have "correlation_classification (Tensor3 10 0 (replicate 10 (replicate 10 []))) =
     Inr ([], Fin 0.1)"
  proof -
    have "wf_tensor3 (Tensor3 10 0 (replicate 10 (replicate 10 [])))"
      by (simp add: wf_tensor3_def list_all_iff)
    from correlation_classification_hits [OF this, of 10 0] show ?thesis by simp
  qed
  ultimately show ?thesis using h1 hits by blast
qed

section \<open>Properties of \<open>load_inputs\<close>\<close>

lemma delay_default_ok:
  assumes "5 \<le> nrows emb"
  shows "\<exists>m. delay_embedding z emb [2, 3, 4, 5] False = Inr m \<and> nrows m = nrows emb"
proof -
  have "delay_embedding z emb [2, 3, 4, 5] False =
     Inr (Matrix (ncols emb * length [2, 3, 4, 5 :: int])
            (map (\<lambda>r. concat (map (\<lambda>d. delayed_row emb d r) [2, 3, 4, 5])) [0..<nrows emb]))"
    using assms by (intro delay_embedding_rows) auto
  then show ?thesis by (simp add: nrows_def)
qed

lemma delay_default_short:
  assumes "nrows emb < 5"
  shows "delay_embedding z emb [2, 3, 4, 5] zf = Inl ValueError"
proof -
  have "max (nat 5) (nrows emb) \<noteq> max (nat 2) (nrows emb)" using assms by simp
  then show ?thesis
    by (intro delay_embedding_mismatch [where ?d1.0 = 5 and ?d2.0 = 2]) auto
qed

lemma apply_mask_fits: "mask_fits msk a \<Longrightarrow> \<exists>b. apply_mask msk a = Inr b"
  by (auto simp: mask_fits_def apply_mask_def split: option.splits)

lemma ncols_trim_rows: "ncols (trim_rows trims a) = ncols a"
  by (simp add: trim_rows_def slice_rows_def)

lemma load_subjects_cases:
  assumes "list_all (\<lambda>(s, fn). mask_fits msk (rg fn)) subs"
  shows "if list_ex (\<lambda>(s, fn). nrows (trim_rows trims (rg fn)) \<noteq> nrows model) subs
         then load_subjects rg trims model msk subs acc = Inl ValueError
         else (\<exists>res. load_subjects rg trims model msk subs acc = Inr res)"
  using assms
proof (induction subs arbitrary: acc)
  case Nil
  then show ?case by simp
next
  case (Cons p subs)
  obtain s fn where p: "p = (s, fn)" by (cases p)
  have "mask_fits msk (trim_rows trims (rg fn))"
    using Cons.prems p by (simp add: mask_fits_def ncols_trim_rows split: option.splits)
  then obtain b where b: "apply_mask msk (trim_rows trims (rg fn)) = Inr b"
    using apply_mask_fits by blast
  have rest: "list_all (\<lambda>(s, fn). mask_fits msk (rg fn)) subs" using Cons.prems by simp
  show ?case
    using Cons.IH [OF rest, of "AList.update s b acc"] p b
    by (auto simp: Let_def)
qed

lemma load_stories_cases:
  assumes "list_all (story_loadable ld rg metadata msk) ss"
  shows "if list_ex (story_mismatch ld rg metadata) ss
         then load_stories ld rg z metadata msk ss acc = Inl ValueError
         else (\<exists>res. load_stories ld rg z metadata msk ss acc = Inr res)"
  using assms
proof (induction ss arbitrary: acc)
  case Nil
  then show ?case by simp
next
  case (Cons story ss)
  from Cons.prems obtain meta where meta: "map_of metadata story = Some meta"
      and rows5: "5 \<le> nrows (trim_rows (model_trims meta) (ld (meta_model meta)))"
      and fits: "list_all (\<lambda>(s, fn). mask_fits msk (rg fn)) (meta_data meta)"
    by (auto simp: story_loadable_def split: option.splits)
  let ?emb = "trim_rows (model_trims meta) (ld (meta_model meta))"
  from delay_default_ok [OF rows5, of z]
  obtain model where model: "delay_embedding z ?emb [2, 3, 4, 5] False = Inr model"
      "nrows model = nrows ?emb"
    by blast
  have mm: "story_mismatch ld rg metadata story \<longleftrightarrow>
      list_ex (\<lambda>(s, fn). nrows (trim_rows (data_trims meta) (rg fn)) \<noteq> nrows model)
        (meta_data meta)"
    using meta model(2) by (simp add: story_mismatch_def shape_mismatch_def)
  have rest: "list_all (story_loadable ld rg metadata msk) ss" using Cons.prems by simp
  show ?case
  proof (cases "story_mismatch ld rg metadata story")
    case True
    then have "load_subjects rg (data_trims meta) model msk (meta_data meta) [] = Inl ValueError"
      using load_subjects_cases [OF fits, of "data_trims meta" model "[]"] mm by simp
    then show ?thesis using True meta model(1) by (simp add: dict_get_def)
  next
    case False
    then obtain sd where sd:
        "load_subjects rg (data_trims meta) model msk (meta_data meta) [] = Inr sd"
      using load_subjects_cases [OF fits, of "data_trims meta" model "[]"] mm by auto
    show ?thesis
      using Cons.IH [OF rest, of "AList.update story \<lparr>story_model = model, story_data = sd\<rparr> acc"]
        False meta model(1) sd
      by (simp add: dict_get_def)
  qed
qed

lemma trim_rows_offsets:
  assumes "0 \<le> s" "0 \<le> e"
  shows "trim_rows (s, e) a = Matrix (ncols a) (drop (nat s) (take (nrows a - nat e) (rows a)))"
proof -
  let ?n = "length (rows a)"
  have lo: "slice_bound ?n s = min ?n (nat s)" using assms(1) by (simp add: slice_bound_def)
  have hi: "(case (if - e = 0 then None else Some (- e)) of None \<Rightarrow> ?n
             | Some j \<Rightarrow> slice_bound ?n j) = ?n - nat e"
    using assms(2) by (cases "e = 0") (simp_all add: slice_bound_def)
  have "take ((?n - nat e) - min ?n (nat s)) (drop (min ?n (nat s)) (rows a)) =
        drop (nat s) (take (?n - nat e) (rows a))"
    by (cases "nat s \<le> ?n") (simp_all add: drop_take min_def)
  then show ?thesis
    unfolding trim_rows_def slice_rows_def py_slice_def Let_def fst_conv snd_conv hi
      option.case lo nrows_def
    by simp
qed

text \<open>
  Claim C8, as amended. Let every requested story be loadable: it is in the metadata, its
  trimmed embedding has at least five rows, and the mask (if any) has one entry per data
  column. Then \<open>load_inputs\<close> raises exactly when, for some requested story, a subject's
  trimmed data has a row count different from the trimmed embedding's, which is the
  delayed model's; the exception is \<open>ValueError\<close> and nothing is returned. Trimming by
  non-negative offsets \<open>(s, e)\<close> keeps rows \<open>s\<close> to \<open>n - e - 1\<close>; an end offset of 0 removes
  no trailing row.
\<close>

theorem load_inputs_raises:
  assumes "list_all (story_loadable np_load read_gifti metadata msk)
             (requested_stories metadata stories)"
  shows "((\<exists>e. load_inputs np_load read_gifti zscore metadata stories msk = Inl e) \<longleftrightarrow>
            list_ex (story_mismatch np_load read_gifti metadata)
              (requested_stories metadata stories)) \<and>
         (list_ex (story_mismatch np_load read_gifti metadata) (requested_stories metadata stories)
            \<longrightarrow> load_inputs np_load read_gifti zscore metadata stories msk = Inl ValueError) \<and>
         (0 \<le> s \<and> 0 \<le> e \<longrightarrow>
            trim_rows (s, e) a = Matrix (ncols a) (drop (nat s) (take (nrows a - nat e) (rows a)))) \<and>
         (0 \<le> s \<longrightarrow> trim_rows (s, 0) a = Matrix (ncols a) (drop (nat s) (rows a)))"
proof -
  let ?ss = "requested_stories metadata stories"
  let ?r = "load_inputs np_load read_gifti zscore metadata stories msk"
  have c: "if list_ex (story_mismatch np_load read_gifti metadata) ?ss
           then ?r = Inl ValueError else (\<exists>res. ?r = Inr res)"
    using load_stories_cases [OF assms, of zscore "[]"] by (simp add: load_inputs_def)
  have iff: "(\<exists>e. ?r = Inl e) \<longleftrightarrow> list_ex (story_mismatch np_load read_gifti metadata) ?ss"
  proof (cases "list_ex (story_mismatch np_load read_gifti metadata) ?ss")
    case True
    then show ?thesis using c by simp
  next
    case False
    then obtain res where "?r = Inr res" using c by auto
    then show ?thesis using False by simp
  qed
  have val: "list_ex (story_mismatch np_load read_gifti metadata) ?ss \<longrightarrow> ?r = Inl ValueError"
    using c by simp
  have t: "0 \<le> s \<and> 0 \<le> e \<longrightarrow>
            trim_rows (s, e) a = Matrix (ncols a) (drop (nat s) (take (nrows a - nat e) (rows a)))"
    using trim_rows_offsets [of s e a] by blast
  have t0: "0 \<le> s \<longrightarrow> trim_rows (s, 0) a = Matrix (ncols a) (drop (nat s) (rows a))"
    using trim_rows_offsets [of s 0 a] by (simp add: nrows_def)
  show ?thesis using iff val t t0 by blast
qed

text \<open>
  The theorem for C8 on \<open>example_metadata\<close>: the story \<open>forgot\<close> has a subject of six rows
  against a model of five, so loading it raises; the story \<open>black\<close> alone loads.
\<close>

theorem load_inputs_raises_witness:
  "list_all (story_loadable example_files example_files example_metadata None)
     (requested_stories example_metadata (Some [''black'', ''forgot''])) \<and>
   list_ex (story_mismatch example_files example_files example_metadata)
     (requested_stories example_metadata (Some [''black'', ''forgot''])) \<and>
   load_inputs example_files example_files id example_metadata (Some [''black'', ''forgot'']) None =
     Inl ValueError \<and>
   \<not> list_ex (story_mismatch example_files example_files example_metadata)
     (requested_stories example_metadata (Some [''black''])) \<and>
   (\<exists>res. load_inputs example_files example_files id example_metadata (Some [''black'']) None =
      Inr res)"
proof -
  have h1: "list_all (story_loadable example_files example_files example_metadata None)
     (requested_stories example_metadata (Some [''black'', ''forgot'']))"
    by code_simp
  have h2: "list_all (story_loadable example_files example_files example_metadata None)
     (requested_stories example_metadata (Some [''black'']))"
    by code_simp
  have m1: "list_ex (story_mismatch example_files example_files example_metadata)
     (requested_stories example_metadata (Some [''black'', ''forgot'']))"
    by code_simp
  have m2: "\<not> list_ex (story_mismatch example_files example_files example_metadata)
     (requested_stories example_metadata (Some [''black'']))"
    by code_simp
  have "load_inputs example_files example_files id example_metadata
          (Some [''black'', ''forgot'']) None = Inl ValueError"
    using load_inputs_raises [OF h1, of id] m1 by blast
  moreover have "\<exists>res. load_inputs example_files example_files id example_metadata
          (Some [''black'']) None = Inr res"
  proof -
    have "\<not> (\<exists>e. load_inputs example_files example_files id example_metadata
          (Some [''black'']) None = Inl e)"
      using load_inputs_raises [OF h2, of id] m2 by blast
    then show ?thesis
      by (cases "load_inputs example_files example_files id example_metadata
          (Some [''black'']) None") auto
  qed
  ultimately show ?thesis using h1 m1 m2 by blast
qed

text \<open>
  C8 as it was stated fails: \<open>load_inputs\<close> raises although no row count differs, when the
  trimmed embedding has three rows (\<open>np.hstack\<close> raises inside \<open>delay_embedding\<close>), and when
  the mask has one entry for data of two columns (\<open>IndexError\<close>).
\<close>

theorem load_inputs_raises_counterexample:
  "load_inputs example_files example_files id example_metadata (Some [''short'']) None =
     Inl ValueError \<and>
   \<not> story_mismatch example_files example_files example_metadata ''short'' \<and>
   load_inputs example_files example_files id example_metadata (Some [''black'']) (Some [True]) =
     Inl IndexError \<and>
   \<not> story_mismatch example_files example_files example_metadata ''black''"
  by code_simp


section \<open>Properties of \<open>split_half\<close>\<close>

lemma py_slice_to: "py_slice None (Some (int k)) xs = take k xs"
  by (simp add: py_slice_def slice_bound_def Let_def min_def)

lemma py_slice_from: "py_slice (Some (int k)) None xs = drop k xs"
  by (simp add: py_slice_def slice_bound_def Let_def min_def)

lemma split_pair_halves: "split_pair z dz m mid = mirror_pairs z dz mid m"
  by (simp add: split_pair_def slice_rows_def py_slice_to py_slice_from first_half_def
      second_half_def standardised_def mirror_pairs_def Let_def)

lemma update_fresh: "k \<notin> fst ` set al \<Longrightarrow> AList.update k v al = al @ [(k, v)]"
  by (induction al) auto

lemma split_subjects_acc:
  assumes "list_all (\<lambda>(s, d). nrows d = nrows model) sd" "distinct (map fst acc @ map fst sd)"
  shows "split_subjects z zd model mid sd acc =
           Inr (acc @ map (\<lambda>(s, d). (s, split_pair z zd d mid)) sd)"
  using assms
proof (induction sd arbitrary: acc)
  case Nil
  then show ?case by simp
next
  case (Cons p sd)
  obtain s d where p: "p = (s, d)" by (cases p)
  have fresh: "s \<notin> fst ` set acc" using Cons.prems(2) p by auto
  have d: "distinct (map fst (acc @ [(s, split_pair z zd d mid)]) @ map fst sd)"
    using Cons.prems(2) p by auto
  have "split_subjects z zd model mid sd (acc @ [(s, split_pair z zd d mid)]) =
          Inr ((acc @ [(s, split_pair z zd d mid)]) @ map (\<lambda>(s, d). (s, split_pair z zd d mid)) sd)"
    using Cons.prems(1) d by (intro Cons.IH) simp_all
  then show ?case using Cons.prems(1) p fresh by (simp add: update_fresh)
qed

lemma split_subjects_mismatch:
  assumes "\<not> list_all (\<lambda>(s, d). nrows d = nrows model) sd"
  shows "split_subjects z zd model mid sd acc = Inl AssertionError"
  using assms by (induction sd arbitrary: acc) auto

lemma split_story_ok:
  assumes "rows_match inp"
  shows "split_story z zd zm inp =
           Inr (split_pair z zm (story_model inp) (nrows (story_model inp) div 2),
                map (\<lambda>(s, d). (s, split_pair z zd d (nrows (story_model inp) div 2)))
                  (story_data inp))"
  using assms split_subjects_acc [of "story_model inp" "story_data inp" "[]" z zd]
  by (simp add: split_story_def rows_match_def Let_def)

lemma split_stories_acc:
  assumes "list_all (\<lambda>(story, inp). rows_match inp) inputs"
    and "distinct (map fst ms @ map fst inputs)" "map fst ds = map fst ms"
  shows "split_stories z zd zm inputs (ms, ds) =
           Inr (ms @ map (\<lambda>(story, inp).
                            (story, split_pair z zm (story_model inp) (nrows (story_model inp) div 2)))
                       inputs,
                ds @ map (\<lambda>(story, inp).
                            (story, map (\<lambda>(s, d). (s, split_pair z zd d (nrows (story_model inp) div 2)))
                                      (story_data inp)))
                       inputs)"
  using assms
proof (induction inputs arbitrary: ms ds)
  case Nil
  then show ?case by simp
next
  case (Cons p inputs)
  obtain story inp where p: "p = (story, inp)" by (cases p)
  let ?mp = "split_pair z zm (story_model inp) (nrows (story_model inp) div 2)"
  let ?ss = "map (\<lambda>(s, d). (s, split_pair z zd d (nrows (story_model inp) div 2))) (story_data inp)"
  have ok: "rows_match inp" using Cons.prems(1) p by simp
  have "set (map fst ds) = set (map fst ms)" using Cons.prems(3) by simp
  then have same: "fst ` set ds = fst ` set ms" by simp
  have "story \<notin> fst ` set ms" using Cons.prems(2) p by auto
  then have fresh: "story \<notin> fst ` set ms" "story \<notin> fst ` set ds"
    using same by simp_all
  have step: "split_stories z zd zm (p # inputs) (ms, ds) =
      split_stories z zd zm inputs (ms @ [(story, ?mp)], ds @ [(story, ?ss)])"
    using p fresh by (simp add: split_story_ok [OF ok] update_fresh)
  have "split_stories z zd zm inputs (ms @ [(story, ?mp)], ds @ [(story, ?ss)]) =
      Inr ((ms @ [(story, ?mp)]) @ map (\<lambda>(story, inp).
                            (story, split_pair z zm (story_model inp) (nrows (story_model inp) div 2)))
                       inputs,
           (ds @ [(story, ?ss)]) @ map (\<lambda>(story, inp).
                            (story, map (\<lambda>(s, d). (s, split_pair z zd d (nrows (story_model inp) div 2)))
                                      (story_data inp)))
                       inputs)"
    using Cons.prems p by (intro Cons.IH) simp_all
  then show ?case unfolding step using p by simp
qed


text \<open>
  Claim C9. For a story whose subjects all have as many rows as the model, the loop body
  of \<open>split_half\<close> takes \<open>midpoint = n_rows div 2\<close> and gives, for the model and for every
  subject's data, the two pairs \<open>(first, second)\<close> and \<open>(second, first)\<close>, where \<open>first\<close> is
  rows \<open>0\<close> to \<open>midpoint - 1\<close> and \<open>second\<close> is rows \<open>midpoint\<close> to the end, each half
  z-scored by itself when z-scoring is asked for. When every story of the inputs is such
  a story (the precondition the \<open>assert\<close> checks), \<open>split_half\<close> returns these pairs for
  all of them. The two halves together are all the rows.
\<close>

theorem split_half_mirror:
  "(rows_match inp \<longrightarrow>
      split_story z zd zm inp =
        Inr (mirror_pairs z zm (midpoint_of inp) (story_model inp),
             map (\<lambda>(subject, d). (subject, mirror_pairs z zd (midpoint_of inp) d))
               (story_data inp))) \<and>
   (distinct (map fst inputs) \<and> list_all (\<lambda>(story, inp). rows_match inp) inputs \<longrightarrow>
      split_half z inputs zd zm =
        Inr (map (\<lambda>(story, inp).
                    (story, mirror_pairs z zm (midpoint_of inp) (story_model inp))) inputs,
             map (\<lambda>(story, inp).
                    (story, map (\<lambda>(subject, d). (subject, mirror_pairs z zd (midpoint_of inp) d))
                              (story_data inp))) inputs)) \<and>
   mirror_pairs z dz mid m =
     [(standardised z dz (first_half mid m), standardised z dz (second_half mid m)),
      (standardised z dz (second_half mid m), standardised z dz (first_half mid m))] \<and>
   first_half mid m = Matrix (ncols m) (take mid (rows m)) \<and>
   second_half mid m = Matrix (ncols m) (drop mid (rows m)) \<and>
   rows (first_half mid m) @ rows (second_half mid m) = rows m \<and>
   nrows (first_half mid m) + nrows (second_half mid m) = nrows m"
proof (intro conjI impI)
  show "split_story z zd zm inp =
        Inr (mirror_pairs z zm (midpoint_of inp) (story_model inp),
             map (\<lambda>(subject, d). (subject, mirror_pairs z zd (midpoint_of inp) d))
               (story_data inp))" if "rows_match inp"
    using split_story_ok [OF that] by (simp add: split_pair_halves midpoint_of_def)
  show "split_half z inputs zd zm =
        Inr (map (\<lambda>(story, inp).
                    (story, mirror_pairs z zm (midpoint_of inp) (story_model inp))) inputs,
             map (\<lambda>(story, inp).
                    (story, map (\<lambda>(subject, d). (subject, mirror_pairs z zd (midpoint_of inp) d))
                              (story_data inp))) inputs)"
    if "distinct (map fst inputs) \<and> list_all (\<lambda>(story, inp). rows_match inp) inputs"
    using that split_stories_acc [of inputs "[]" "[]" z zd zm]
    by (simp add: split_half_def split_pair_halves midpoint_of_def)
qed (simp_all add: mirror_pairs_def first_half_def second_half_def nrows_def)

text \<open>The theorem for C9 at \<open>example_inputs\<close>, with the data z-scored by the identity.\<close>

theorem split_half_mirror_witness:
  "distinct (map fst example_inputs) \<and>
   list_all (\<lambda>(story, inp). rows_match inp) example_inputs \<and>
   split_half id example_inputs True False =
     Inr ([(''forgot'',
            [(Matrix 1 [[Fin 1]], Matrix 1 [[Fin 2], [Fin 3]]),
             (Matrix 1 [[Fin 2], [Fin 3]], Matrix 1 [[Fin 1]])])],
          [(''forgot'',
            [(''sub-02'',
              [(Matrix 2 [[Fin 4, Fin 5]], Matrix 2 [[Fin 6, Fin 7], [Fin 8, Fin 9]]),
               (Matrix 2 [[Fin 6, Fin 7], [Fin 8, Fin 9]], Matrix 2 [[Fin 4, Fin 5]])])])])"
proof -
  have h: "distinct (map fst example_inputs) \<and>
      list_all (\<lambda>(story, inp). rows_match inp) example_inputs"
    by (simp add: example_inputs_def rows_match_def nrows_def)
  from split_half_mirror [where inputs = example_inputs and z = id and zd = True and zm = False] h
  have "split_half id example_inputs True False =
        Inr (map (\<lambda>(story, inp).
                    (story, mirror_pairs id False (midpoint_of inp) (story_model inp))) example_inputs,
             map (\<lambda>(story, inp).
                    (story, map (\<lambda>(subject, d). (subject, mirror_pairs id True (midpoint_of inp) d))
                              (story_data inp))) example_inputs)"
    by blast
  then show ?thesis using h
    by (simp add: example_inputs_def mirror_pairs_def standardised_def first_half_def
        second_half_def midpoint_of_def nrows_def)
qed

section \<open>Properties of \<open>rank_accuracy\<close> and \<open>grid_search\<close>\<close>

text \<open>
  Claim C10. Whatever the two matrices and the flag are, \<open>rank_accuracy\<close> raises
  \<open>NameError\<close>: \<open>cdist\<close> (like \<open>rankdata\<close>) is no name of the module, and the body looks it
  up before it computes anything. So the accuracy computed at the top level of the module
  is never obtained.
\<close>

theorem rank_accuracy_name_error:
  "rank_accuracy cdist rankdata predicted_model test_model mean = Inl (NameError ''cdist'')"
  by (simp add: rank_accuracy_def lookup_global_def module_globals_def)

text \<open>
  Claim C7 describes the rank statistic that the body of \<open>rank_accuracy\<close> spells out; the
  code does not compute it. For a predicted matrix equal to the true one, with two rows
  that are not perfectly correlated, the claim gives the mean 1.0, and the call raises
  \<open>NameError\<close>.
\<close>

theorem rank_accuracy_identical:
  "rank_accuracy cdist rankdata
     (Matrix 3 [[Fin 1, Fin 2, Fin 3], [Fin 3, Fin 1, Fin 2]])
     (Matrix 3 [[Fin 1, Fin 2, Fin 3], [Fin 3, Fin 1, Fin 2]]) True \<noteq> Inr (Mean (Fin 1)) \<and>
   rank_accuracy cdist rankdata
     (Matrix 3 [[Fin 1, Fin 2, Fin 3], [Fin 3, Fin 1, Fin 2]])
     (Matrix 3 [[Fin 1, Fin 2, Fin 3], [Fin 3, Fin 1, Fin 2]]) True = Inl (NameError ''cdist'')"
  by (simp add: rank_accuracy_def lookup_global_def module_globals_def)


text \<open>
  Claim C2 gives one entry per column of \<open>train_data\<close>; the code takes the number of voxels
  from \<open>train_model\<close>. With a model of two columns and data of one column (same row
  count) the read of column 1 of the data raises \<open>IndexError\<close>; with a model of one column
  and data of two columns the results have one entry, not two.
\<close>

theorem grid_search_voxel_subset:
  "grid_search example_fit (Matrix 2 [[Fin 1, Fin 2], [Fin 3, Fin 4]])
     (Matrix 1 [[Fin 5], [Fin 6]]) [Fin 1] 2 = Inl IndexError \<and>
   grid_search example_fit (Matrix 1 [[Fin 1], [Fin 3]])
     (Matrix 2 [[Fin 5, Fin 7], [Fin 6, Fin 8]]) [Fin 1] 2 = Inr ([Fin 1], [Fin 0], Matrix 1 [[Fin 0]])"
  by code_simp

lemma grid_voxels_lengths:
  assumes "grid_voxels fit tm td n vs (ba, bs, sc) = Inr (ba', bs', sc')"
  shows "length ba' = length ba + length vs \<and> length bs' = length bs + length vs \<and>
         length sc' = length sc + length vs \<and> (\<forall>v\<in>set vs. v < ncols td)"
  using assms
proof (induction vs arbitrary: ba bs sc)
  case Nil
  then show ?case by simp
next
  case (Cons v vs)
  from Cons.prems obtain y g s where
      "column td v = Inr y" "fit tm y = Inr g"
      "vstack_rows (map (split_test_score g) [0..<n]) = Inr s"
      "grid_voxels fit tm td n vs (ba @ [best_alpha g], bs @ [best_score g], sc @ [mean_axis0 s])
         = Inr (ba', bs', sc')"
    by (auto split: sum.splits)
  moreover from this(1) have "v < ncols td" by (simp add: column_def split: if_splits)
  ultimately show ?case using Cons.IH by fastforce
qed

text \<open>
  In general: a result of \<open>grid_search\<close> has one entry per column of \<open>train_model\<close>, and
  there is a result only if \<open>train_data\<close> has at least as many columns.
\<close>

lemma grid_search_sizes:
  assumes "grid_search grid_fit train_model train_data alphas n_splits = Inr (ba, bs, sc)"
  shows "length ba = ncols train_model \<and> length bs = ncols train_model \<and>
         ncols sc = ncols train_model \<and> ncols train_model \<le> ncols train_data"
proof -
  from assms obtain sl where
    gv: "grid_voxels (grid_fit alphas n_splits) train_model train_data n_splits
           [0..<ncols train_model] ([], [], []) = Inr (ba, bs, sl)"
    and len: "length ba = length bs" "length bs = ncols sc" "ncols sc = ncols train_model"
    by (auto simp: grid_search_def Let_def split: if_splits sum.splits)
  from grid_voxels_lengths [OF gv] have "\<forall>v\<in>set [0..<ncols train_model]. v < ncols train_data"
    by blast
  then have "ncols train_model \<le> ncols train_data"
    by (cases "ncols train_model") (auto simp del: upt_Suc)
  then show ?thesis using len by simp
qed

section \<open>Properties of the loops over the results cache\<close>

text \<open>
  Claim C1 holds for the time-segment classification loop (lemma
  \<open>ts_classification_loop_keeps\<close> below) and fails for the ISC loop: on a cache that holds
  the leaf 0 at (black, EAC, no SRM, lh), with a pipeline that returns 1, the ISC loop
  computes that key again and leaves 1 there, where the classification loop computes
  nothing and leaves 0.
\<close>

theorem isc_loop_overwrites:
  "lookup4 cached (''black'', ''EAC'', ''no SRM'', ''lh'') = Some (Computed 0) \<and>
   leaf_after (isc_loop fresh_value [''black''] [''EAC''] [(''no SRM'', ''noSRM'')] [''lh''] cached)
     (''black'', ''EAC'', ''no SRM'', ''lh'') = Some (Computed 1) \<and>
   computed_keys (isc_loop fresh_value [''black''] [''EAC''] [(''no SRM'', ''noSRM'')] [''lh''] cached)
     = [(''black'', ''EAC'', ''no SRM'', ''lh'')] \<and>
   leaf_after (ts_classification_loop fresh_value [''black''] [''EAC''] [(''no SRM'', ''noSRM'')]
                 [''lh''] cached)
     (''black'', ''EAC'', ''no SRM'', ''lh'') = Some (Computed 0) \<and>
   computed_keys (ts_classification_loop fresh_value [''black''] [''EAC''] [(''no SRM'', ''noSRM'')]
                 [''lh''] cached) = []"
  by (simp add: isc_loop_def ts_classification_loop_def ts_prefix_def leaf_after_def
      computed_keys_def lookup4_def cached_def fresh_value_def)

lemma extends_byD:
  "extends_by R d d' \<Longrightarrow> d k = Some sub \<Longrightarrow> \<exists>sub'. d' k = Some sub' \<and> R sub sub'"
  by (simp add: extends_by_def)

lemma reflp_extends_by: "reflp R \<Longrightarrow> reflp (extends_by R)"
  by (auto simp: reflp_def extends_by_def)

lemma transp_extends_by:
  assumes "transp R"
  shows "transp (extends_by R)"
proof (rule transpI)
  fix a b c assume ab: "extends_by R a b" and bc: "extends_by R b c"
  show "extends_by R a c"
    unfolding extends_by_def
  proof (intro allI impI)
    fix k sub assume "a k = Some sub"
    then obtain s1 where s1: "b k = Some s1" "R sub s1" using ab by (auto simp: extends_by_def)
    then obtain s2 where s2: "c k = Some s2" "R s1 s2" using bc by (auto simp: extends_by_def)
    have "R sub s2" using assms s1(2) s2(2) by (rule transpD)
    then show "\<exists>sub'. c k = Some sub' \<and> R sub sub'" using s2(1) by blast
  qed
qed

lemma reflp_map_le: "reflp ((\<subseteq>\<^sub>m) :: ('a \<rightharpoonup> 'b) \<Rightarrow> ('a \<rightharpoonup> 'b) \<Rightarrow> bool)"
  by (simp add: reflp_def)

lemma transp_map_le: "transp ((\<subseteq>\<^sub>m) :: ('a \<rightharpoonup> 'b) \<Rightarrow> ('a \<rightharpoonup> 'b) \<Rightarrow> bool)"
  by (rule transpI) (rule map_le_trans)

text \<open>
  The time-segment classification loop keeps every leaf of the cache it starts from, and
  its innermost loop computes only hemispheres that are missing.
\<close>

lemma ts_hemis_keeps:
  assumes "ts_hemis pipeline story roi prefix hemis (d, c) = Inr (d', c')"
  shows "d \<subseteq>\<^sub>m d'"
  using assms
proof (induction hemis arbitrary: d c)
  case Nil
  then show ?case by simp
next
  case (Cons hemi hemis)
  show ?case
  proof (cases "hemi \<in> dom d")
    case True
    then show ?thesis using Cons by simp
  next
    case False
    then obtain v where v: "ts_hemis pipeline story roi prefix hemis
        (d(hemi \<mapsto> Computed v), c @ [(story, roi, fst prefix, hemi)]) = Inr (d', c')"
      using Cons.prems by (auto split: sum.splits)
    have "d \<subseteq>\<^sub>m d(hemi \<mapsto> Computed v)" using False by (auto simp: map_le_def)
    then show ?thesis using Cons.IH [OF v] map_le_trans by blast
  qed
qed

lemma ts_hemis_computes_missing:
  assumes "ts_hemis pipeline story roi prefix hemis (d, c) = Inr (d', c')"
  shows "\<exists>new. c' = c @ new \<and> (\<forall>k\<in>set new. \<exists>h. k = (story, roi, fst prefix, h) \<and> d h = None)"
  using assms
proof (induction hemis arbitrary: d c)
  case Nil
  then show ?case by simp
next
  case (Cons hemi hemis)
  show ?case
  proof (cases "hemi \<in> dom d")
    case True
    then show ?thesis using Cons by simp
  next
    case False
    then obtain v where v: "ts_hemis pipeline story roi prefix hemis
        (d(hemi \<mapsto> Computed v), c @ [(story, roi, fst prefix, hemi)]) = Inr (d', c')"
      using Cons.prems by (auto split: sum.splits)
    from Cons.IH [OF v] obtain new where new:
        "c' = (c @ [(story, roi, fst prefix, hemi)]) @ new"
        "\<forall>k\<in>set new. \<exists>h. k = (story, roi, fst prefix, h) \<and> (d(hemi \<mapsto> Computed v)) h = None"
      by blast
    have "\<forall>k\<in>set ((story, roi, fst prefix, hemi) # new).
            \<exists>h. k = (story, roi, fst prefix, h) \<and> d h = None"
      using new(2) False by (auto split: if_splits)
    then show ?thesis using new(1) by (intro exI [of _ "(story, roi, fst prefix, hemi) # new"]) simp
  qed
qed

lemma for_keys_keeps:
  assumes body: "\<And>x sub c sub' c'. body x (sub, c) = Inr (sub', c') \<Longrightarrow> R sub sub'"
    and refl: "reflp R" and trans: "transp R"
    and run: "for_keys key body fresh xs (d, c) = Inr (d', c')"
  shows "extends_by R d d'"
  using run
proof (induction xs arbitrary: d c)
  case Nil
  then show ?case using refl by (simp add: extends_by_def reflp_def)
next
  case (Cons x xs)
  let ?sub = "case d (key x) of None \<Rightarrow> fresh | Some sub \<Rightarrow> sub"
  from Cons.prems obtain sub' c1 where
      b: "body x (?sub, c) = Inr (sub', c1)"
      and rest: "for_keys key body fresh xs (d(key x \<mapsto> sub'), c1) = Inr (d', c')"
    by (auto split: sum.splits)
  have "R ?sub sub'" using body [OF b] .
  then have "extends_by R d (d(key x \<mapsto> sub'))"
    using refl by (auto simp: extends_by_def reflp_def)
  then show ?case
    using Cons.IH [OF rest] transp_extends_by [OF trans] by (blast dest: transpD)
qed

lemma ts_classification_loop_keeps:
  assumes "ts_classification_loop pipeline stories rois prefixes hemis results = Inr (results', computed)"
    and "lookup4 results k = Some v"
  shows "lookup4 results' k = Some v"
proof -
  let ?R4 = "(\<subseteq>\<^sub>m) :: 'a hemi_dict \<Rightarrow> 'a hemi_dict \<Rightarrow> bool"
  let ?R3 = "extends_by ?R4"
  let ?R2 = "extends_by ?R3"
  have l3: "?R3 d d'"
    if "for_keys fst (ts_prefix pipeline hemis story roi) Map.empty prefixes (d, c) = Inr (d', c')"
    for story roi d c d' c'
    using _ reflp_map_le transp_map_le that
  proof (rule for_keys_keeps)
    show "sub \<subseteq>\<^sub>m sub'" if "ts_prefix pipeline hemis story roi x (sub, c) = Inr (sub', c')"
      for x sub c sub' c'
      using that ts_hemis_keeps unfolding ts_prefix_def by blast
  qed
  have l2: "?R2 d d'"
    if "for_keys id (\<lambda>roi. for_keys fst (ts_prefix pipeline hemis story roi) Map.empty prefixes)
          Map.empty rois (d, c) = Inr (d', c')"
    for story d c d' c'
    using _ reflp_extends_by [OF reflp_map_le] transp_extends_by [OF transp_map_le] that
    by (rule for_keys_keeps) (rule l3)
  have l1: "extends_by ?R2 results results'"
    using _ reflp_extends_by [OF reflp_extends_by [OF reflp_map_le]]
      transp_extends_by [OF transp_extends_by [OF transp_map_le]]
      assms(1) [unfolded ts_classification_loop_def]
    by (rule for_keys_keeps) (rule l2)
  obtain story roi label hemi where k: "k = (story, roi, label, hemi)" by (cases k)
  from assms(2) k obtain a b c where
      a: "results story = Some a" "a roi = Some b" "b label = Some c" "c hemi = Some v"
    by (auto simp: lookup4_def split: option.splits)
  from extends_byD [OF l1 a(1)] obtain a' where a': "results' story = Some a'" "?R2 a a'"
    by blast
  from extends_byD [OF a'(2) a(2)] obtain b' where b': "a' roi = Some b'" "?R3 b b'"
    by blast
  from extends_byD [OF b'(2) a(3)] obtain c' where c': "b' label = Some c'" "c \<subseteq>\<^sub>m c'"
    by blast
  from c'(2) a(4) have "c' hemi = Some v" by (auto simp: map_le_def dom_def)
  then show ?thesis using k a' b' c' by (simp add: lookup4_def)
qed

end
